theory Spec2Isabelle
  imports Complex_Main "HOL-Library.AList"
begin

section \<open>Python values shared by both source files\<close>

text \<open>
  Exceptions of the source are values: a function that can raise returns
  \<open>py_error + 'a\<close>, with \<open>Inl\<close> the exception. \<open>RuntimeError\<close> is what torch raises
  on a shape mismatch and on stacking an empty list of tensors.
\<close>

datatype py_error = IndexError | RuntimeError | AttributeError

text \<open>Python's \<open>str(i)\<close> for a non-negative integer: its decimal digits.\<close>

definition digit_char :: "nat \<Rightarrow> char" where
  "digit_char d = ''0123456789'' ! d"

fun str_nat :: "nat \<Rightarrow> string" where
  "str_nat n = (if n < 10 then [digit_char n]
                else str_nat (n div 10) @ [digit_char (n mod 10)])"

declare str_nat.simps [simp del]

text \<open>
  Python's list item assignment \<open>xs[i] = v\<close>: a negative index counts from the end,
  an index out of range raises IndexError.
\<close>

definition list_setitem :: "'a list \<Rightarrow> int \<Rightarrow> 'a \<Rightarrow> py_error + 'a list" where
  "list_setitem xs i v =
     (if - int (length xs) \<le> i \<and> i < 0 then Inr (xs[nat (int (length xs) + i) := v])
      else if 0 \<le> i \<and> i < int (length xs) then Inr (xs[nat i := v])
      else Inl IndexError)"

section \<open>gns.py: the MLP builder\<close>

text \<open>
  An activation is passed to \<open>build_mlp\<close> as a module class and instantiated by
  \<open>act[i]()\<close>; \<open>Identity\<close> and \<open>ReLU\<close> are the two defaults of the signature, \<open>Module\<close>
  is any other class, by name. A layer size is a natural number. The sequential
  container is the ordered dictionary of its named modules: \<open>add_module\<close> replaces the
  module under a name already present and appends otherwise.
\<close>

datatype activation = Identity | ReLU | Module string

datatype nn_module = Linear nat nat | Act activation

type_synonym sequential = "(string \<times> nn_module) list"

definition add_module :: "string \<Rightarrow> nn_module \<Rightarrow> sequential \<Rightarrow> sequential" where
  "add_module name m mlp = AList.update name m mlp"

text \<open>Truthiness of \<open>output_size\<close> in \<open>if output_size:\<close> (None and 0 are false).\<close>

fun truthy :: "nat option \<Rightarrow> bool" where
  "truthy None = False"
| "truthy (Some n) = (n \<noteq> 0)"

text \<open>The body of the loop \<open>for i in range(nlayers)\<close>.\<close>

definition add_layer :: "nat list \<Rightarrow> activation list \<Rightarrow> nat \<Rightarrow> sequential \<Rightarrow> sequential" where
  "add_layer layer_sizes act i mlp =
     add_module (''Act-'' @ str_nat i) (Act (act ! i))
       (add_module (''NN-'' @ str_nat i)
          (Linear (layer_sizes ! i) (layer_sizes ! (i + 1))) mlp)"

text \<open>
  \<open>build_mlp(input_size, hidden_layer_sizes, output_size=None,
  output_activation=nn.Identity, activation=nn.ReLU)\<close>. An optional argument that the
  caller omits is \<open>None\<close> here and takes the default of the signature. The reads
  \<open>layer_sizes[i]\<close>, \<open>layer_sizes[i + 1]\<close> and \<open>act[i]\<close> are in range for every
  \<open>i < nlayers\<close>; the one statement that can raise is \<open>act[-1] = output_activation\<close>.
\<close>

definition build_mlp ::
  "nat \<Rightarrow> nat list \<Rightarrow> nat option \<Rightarrow> activation option \<Rightarrow> activation option
     \<Rightarrow> py_error + sequential" where
  "build_mlp input_size hidden_layer_sizes output_size output_activation activation =
     (let output_activation = (case output_activation of None \<Rightarrow> Identity | Some a \<Rightarrow> a);
          activation = (case activation of None \<Rightarrow> ReLU | Some a \<Rightarrow> a);
          layer_sizes = [input_size] @ hidden_layer_sizes;
          layer_sizes = (if truthy output_size then layer_sizes @ [the output_size]
                         else layer_sizes);
          nlayers = length layer_sizes - 1;
          act = replicate nlayers activation
      in case list_setitem act (- 1) output_activation of
           Inl e \<Rightarrow> Inl e
         | Inr act \<Rightarrow> Inr (fold (add_layer layer_sizes act) [0..<nlayers] []))"

section \<open>Tensors as nested lists\<close>

text \<open>
  A tensor of rank 1, 2 or 3 is a list, a list of lists or a list of lists of lists of
  its elements, outermost axis first; floating-point elements are real numbers, so
  rounding is not modelled. An elementwise binary operation of torch broadcasts along
  an axis on which one operand has size 1 and raises RuntimeError when the sizes differ
  otherwise.
\<close>

fun sequence_sum :: "('e + 'a) list \<Rightarrow> 'e + 'a list" where
  "sequence_sum [] = Inr []"
| "sequence_sum (x # xs) =
     (case x of
        Inl e \<Rightarrow> Inl e
      | Inr v \<Rightarrow> (case sequence_sum xs of Inl e \<Rightarrow> Inl e | Inr vs \<Rightarrow> Inr (v # vs)))"

definition broadcast2 ::
  "('a \<Rightarrow> 'b \<Rightarrow> py_error + 'c) \<Rightarrow> 'a list \<Rightarrow> 'b list \<Rightarrow> py_error + 'c list" where
  "broadcast2 f xs ys =
     (if length xs = length ys then sequence_sum (map2 f xs ys)
      else if length xs = 1 then sequence_sum (map (f (hd xs)) ys)
      else if length ys = 1 then sequence_sum (map (\<lambda>x. f x (hd ys)) xs)
      else Inl RuntimeError)"

text \<open>\<open>(a - b) ** 2\<close> on two tensors of rank 2.\<close>

definition sq_diff :: "real list list \<Rightarrow> real list list \<Rightarrow> py_error + real list list" where
  "sq_diff a b = broadcast2 (broadcast2 (\<lambda>x y. Inr ((x - y)\<^sup>2))) a b"

text \<open>
  \<open>torch.stack\<close> of a Python list of rank-2 tensors: raises on the empty list and on
  tensors of different shapes.
\<close>

definition torch_stack :: "real list list list \<Rightarrow> py_error + real list list list" where
  "torch_stack ts =
     (if ts = [] then Inl RuntimeError
      else if \<forall>t\<in>set ts. map length t = map length (hd ts) then Inr ts
      else Inl RuntimeError)"

section \<open>train_baseline.py: constants\<close>

definition INPUT_SEQUENCE_LENGTH :: nat where
  "INPUT_SEQUENCE_LENGTH = 6"

definition NUM_PARTICLE_TYPES :: nat where
  "NUM_PARTICLE_TYPES = 1"

definition KINEMATIC_PARTICLE_ID :: int where
  "KINEMATIC_PARTICLE_ID = - 1"

section \<open>train_baseline.py: rollout\<close>

text \<open>
  \<open>position\<close> has shape (nparticles, time, dim): per particle, the list of its
  positions. The simulator class is not part of this file, so its method
  \<open>predict_positions(current_positions, particle_types, edge_index)\<close> is the parameter
  \<open>predict_positions\<close>; it returns a tensor (nparticles, dim).
\<close>

type_synonym vec = "real list"

type_synonym 'e simulator = "vec list list \<Rightarrow> int list \<Rightarrow> 'e \<Rightarrow> vec list"

text \<open>
  \<open>torch.cat([current_positions[:, 1:], next_position[:, None, :]], dim=1)\<close>: the two
  tensors must agree on the particle axis and on the coordinate axis. The slice
  \<open>current_positions[:, 1:]\<close> keeps the coordinate size of \<open>current_positions\<close>, also
  when it holds no position.
\<close>

definition cat_window :: "vec list list \<Rightarrow> vec list \<Rightarrow> py_error + vec list list" where
  "cat_window current_positions next_position =
     (if list_all2 (\<lambda>w p. \<forall>q\<in>set w. length q = length p)
           current_positions next_position
      then Inr (map2 (\<lambda>w p. tl w @ [p]) current_positions next_position)
      else Inl RuntimeError)"

text \<open>
  The loop \<open>for step in range(nsteps)\<close>, on the number of steps still to run; the state
  is \<open>current_positions\<close> and \<open>predictions\<close>. \<open>kinematic_mask\<close> is computed as in the
  source (there it is also expanded along the coordinate axis) and, the
  \<open>torch.where\<close> that consumed it being commented out, never read.
\<close>

fun rollout_loop ::
  "'e simulator \<Rightarrow> int list \<Rightarrow> 'e \<Rightarrow> nat \<Rightarrow> vec list list \<Rightarrow> vec list list
     \<Rightarrow> py_error + (vec list list \<times> vec list list)" where
  "rollout_loop predict_positions particle_types edge_index 0 current_positions predictions =
     Inr (current_positions, predictions)"
| "rollout_loop predict_positions particle_types edge_index (Suc n) current_positions predictions =
     (let next_position = predict_positions current_positions particle_types edge_index;
          kinematic_mask = map (\<lambda>t. t = KINEMATIC_PARTICLE_ID) particle_types;
          predictions = predictions @ [next_position]
      in case cat_window current_positions next_position of
           Inl e \<Rightarrow> Inl e
         | Inr current_positions \<Rightarrow>
             rollout_loop predict_positions particle_types edge_index n
               current_positions predictions)"

text \<open>
  The dictionary \<open>output_dict\<close>. Its keys \<open>'initial_positions'\<close> and
  \<open>'particle_types'\<close> are the fields \<open>out_initial_positions\<close> and
  \<open>out_particle_types\<close>, the plain names being local variables of \<open>rollout\<close>.
\<close>

record output_dict =
  out_initial_positions :: "vec list list"
  predicted_rollout :: "vec list list"
  ground_truth_rollout :: "vec list"
  out_particle_types :: "int list"

text \<open>
  \<open>rollout\<close> returns \<open>(output_dict, loss)\<close>. \<open>range(nsteps)\<close> is empty for
  \<open>nsteps \<le> 0\<close>. \<open>permute(1, 0, 2)\<close> exchanges the particle and the time axis.
\<close>

definition rollout ::
  "'e simulator \<Rightarrow> vec list list \<Rightarrow> vec list \<Rightarrow> int list \<Rightarrow> 'e \<Rightarrow> int
     \<Rightarrow> py_error + (output_dict \<times> real list list)" where
  "rollout predict_positions position label particle_types edge_index nsteps =
     (let initial_positions = map (take INPUT_SEQUENCE_LENGTH) position;
          ground_truth_positions = label;
          current_positions = initial_positions
      in case rollout_loop predict_positions particle_types edge_index (nat nsteps)
                current_positions [] of
           Inl e \<Rightarrow> Inl e
         | Inr (current_positions, predictions) \<Rightarrow>
             (case torch_stack predictions of
                Inl e \<Rightarrow> Inl e
              | Inr predictions \<Rightarrow>
                  (case sq_diff (last predictions) ground_truth_positions of
                     Inl e \<Rightarrow> Inl e
                   | Inr loss \<Rightarrow>
                       Inr (\<lparr>out_initial_positions = transpose initial_positions,
                             predicted_rollout = predictions,
                             ground_truth_rollout = ground_truth_positions,
                             out_particle_types = particle_types\<rparr>, loss))))"

text \<open>
  The windows that the loop passes to \<open>predict_positions\<close>, in order: the value of
  \<open>current_positions\<close> at the head of each of the first \<open>n\<close> iterations.
\<close>

fun windows ::
  "'e simulator \<Rightarrow> int list \<Rightarrow> 'e \<Rightarrow> nat \<Rightarrow> vec list list \<Rightarrow> vec list list list" where
  "windows predict_positions particle_types edge_index 0 current_positions = []"
| "windows predict_positions particle_types edge_index (Suc n) current_positions =
     current_positions #
       (case cat_window current_positions
               (predict_positions current_positions particle_types edge_index) of
          Inl e \<Rightarrow> []
        | Inr w \<Rightarrow> windows predict_positions particle_types edge_index n w)"

text \<open>A window of shape (n, c, d), and a tensor of shape (n, d).\<close>

definition window_shape :: "nat \<Rightarrow> nat \<Rightarrow> nat \<Rightarrow> vec list list \<Rightarrow> bool" where
  "window_shape n c d w =
     (length w = n \<and> list_all (\<lambda>ps. length ps = c \<and> list_all (\<lambda>p. length p = d) ps) w)"

definition tensor_shape :: "nat \<Rightarrow> nat \<Rightarrow> vec list \<Rightarrow> bool" where
  "tensor_shape n d t = (length t = n \<and> list_all (\<lambda>p. length p = d) t)"

section \<open>train_baseline.py: the noise mask and the loss of train\<close>

text \<open>
  \<open>non_kinematic_mask = (particle_type != KINEMATIC_PARTICLE_ID)\<close>, one boolean per
  particle.
\<close>

definition non_kinematic_mask :: "int list \<Rightarrow> bool list" where
  "non_kinematic_mask particle_type = map (\<lambda>t. t \<noteq> KINEMATIC_PARTICLE_ID) particle_type"

text \<open>
  A float32 element of a tensor that need not be finite: a finite value, as a real
  number, an infinity or nan. It is also the result of a torch division.
\<close>

datatype torch_float = Finite real | PosInf | NegInf | NaN

text \<open>
  The product of a float element and a boolean of the mask: the boolean multiplies as
  1.0 or 0.0. Times 1.0 every element is itself; times 0.0 a finite element is zero,
  and an infinity or nan is nan.
\<close>

definition times_bool :: "torch_float \<Rightarrow> bool \<Rightarrow> torch_float" where
  "times_bool x b =
     (if b then x else (case x of Finite r \<Rightarrow> Finite 0 | _ \<Rightarrow> NaN))"

definition is_finite :: "torch_float \<Rightarrow> bool" where
  "is_finite x = (case x of Finite r \<Rightarrow> True | _ \<Rightarrow> False)"

text \<open>
  \<open>sampled_noise *= non_kinematic_mask.view(-1, 1, 1)\<close>. \<open>sampled_noise\<close>, of shape
  (nparticles, time, dim), comes from \<open>noise_utils\<close>, which is not part of this file:
  it is an argument, any tensor. The product is in place, so the mask may be broadcast
  to the shape of the noise but not the noise to the shape of the mask.
\<close>

definition mask_sampled_noise ::
  "int list \<Rightarrow> torch_float list list list \<Rightarrow> py_error + torch_float list list list" where
  "mask_sampled_noise particle_type sampled_noise =
     (let mask = non_kinematic_mask particle_type;
          times = (\<lambda>b. map (map (\<lambda>x. times_bool x b)))
      in if length mask = length sampled_noise
         then Inr (map2 (\<lambda>b n. times b n) mask sampled_noise)
         else if length mask = 1 then Inr (map (times (hd mask)) sampled_noise)
         else Inl RuntimeError)"

text \<open>
  The result of a torch division of a sum by a count: the quotient, or what IEEE
  arithmetic gives for a zero divisor.
\<close>

definition torch_div :: "real \<Rightarrow> nat \<Rightarrow> torch_float" where
  "torch_div s n =
     (if n \<noteq> 0 then Finite (s / real n)
      else if 0 < s then PosInf else if s < 0 then NegInf else NaN)"

text \<open>
  \<open>loss = (pred_acc - target_acc)**2\<close> and \<open>loss = loss.sum(dim=-1)\<close>: one number per
  particle. \<open>pred_acc\<close> and \<open>target_acc\<close>, of shape (nparticles, dim), come from the
  simulator and are arguments.
\<close>

definition particle_loss :: "real list list \<Rightarrow> real list list \<Rightarrow> py_error + real list" where
  "particle_loss pred_acc target_acc =
     (case sq_diff pred_acc target_acc of
        Inl e \<Rightarrow> Inl e
      | Inr loss \<Rightarrow> Inr (map sum_list loss))"

text \<open>\<open>torch.where(non_kinematic_mask.bool(), loss, torch.zeros_like(loss))\<close>.\<close>

definition masked_loss :: "bool list \<Rightarrow> real list \<Rightarrow> py_error + real list" where
  "masked_loss condition loss = broadcast2 (\<lambda>b l. Inr (if b then l else 0)) condition loss"

text \<open>The loss of one batch, lines 341 to 346 of \<open>train\<close>.\<close>

definition train_loss ::
  "real list list \<Rightarrow> real list list \<Rightarrow> int list \<Rightarrow> py_error + torch_float" where
  "train_loss pred_acc target_acc particle_type =
     (case particle_loss pred_acc target_acc of
        Inl e \<Rightarrow> Inl e
      | Inr loss \<Rightarrow>
          (let num_non_kinematic = length (filter id (non_kinematic_mask particle_type))
           in case masked_loss (non_kinematic_mask particle_type) loss of
                Inl e \<Rightarrow> Inl e
              | Inr loss \<Rightarrow> Inr (torch_div (sum_list loss) num_non_kinematic)))"

text \<open>
  The loss in the words of the specification: the squared acceleration error of a
  particle, summed over the spatial dimensions; its sum over the non-kinematic
  particles; the number of non-kinematic particles.
\<close>

definition squared_error :: "real list \<Rightarrow> real list \<Rightarrow> real" where
  "squared_error p t = sum_list (map2 (\<lambda>x y. (x - y)\<^sup>2) p t)"

definition non_kinematic_error_sum ::
  "real list list \<Rightarrow> real list list \<Rightarrow> int list \<Rightarrow> real" where
  "non_kinematic_error_sum pred_acc target_acc particle_type =
     sum_list (map (\<lambda>(t, p, a). squared_error p a)
       (filter (\<lambda>(t, p, a). t \<noteq> KINEMATIC_PARTICLE_ID)
          (zip particle_type (zip pred_acc target_acc))))"

definition non_kinematic_count :: "int list \<Rightarrow> nat" where
  "non_kinematic_count particle_type =
     length (filter (\<lambda>t. t \<noteq> KINEMATIC_PARTICLE_ID) particle_type)"

section \<open>train_baseline.py: the checkpoint that train resumes from\<close>

text \<open>
  The file system is the list \<open>fs\<close> of the paths that exist, each spelled as the
  program spells it (\<open>model_path\<close> followed by the file name). \<open>glob.glob\<close> of
  \<open>prefix*suffix\<close>, with no other wildcard in it, returns the paths that start with
  the prefix and end with the suffix, the star standing for any characters of one
  file name, so for no path separator.
\<close>

definition glob_star :: "string \<Rightarrow> string \<Rightarrow> string list \<Rightarrow> string list" where
  "glob_star prefix suffix fs =
     filter (\<lambda>p. length prefix + length suffix \<le> length p
               \<and> take (length prefix) p = prefix
               \<and> drop (length p - length suffix) p = suffix
               \<and> CHR ''/'' \<notin> set (take (length p - length prefix - length suffix)
                                      (drop (length prefix) p))) fs"

text \<open>
  The regular expression \<open>.{exp_id}-model-(\d+).pt\<close>, for an \<open>exp_id\<close> that the
  expression reads literally. A dot matches any character but a newline. \<open>\d+\<close> is
  greedy: it takes all the digits there are and gives them back one by one until
  the rest of the expression matches. \<open>try_group s k\<close> tries the groups of \<open>k\<close> digits
  and fewer at the head of \<open>s\<close>; \<open>match_at\<close> matches the expression at the head of a
  string, and \<open>expr_search\<close> is \<open>expr.search\<close>: the match at the leftmost position that
  has one, as its group, or \<open>None\<close>.
\<close>

definition any_char :: "char \<Rightarrow> bool" where
  "any_char c = (c \<noteq> CHR 0x0A)"

definition is_digit :: "char \<Rightarrow> bool" where
  "is_digit c = (c \<in> set ''0123456789'')"

fun try_group :: "string \<Rightarrow> nat \<Rightarrow> string option" where
  "try_group s 0 = None"
| "try_group s (Suc k) =
     (case drop (Suc k) s of
        [] \<Rightarrow> try_group s k
      | c # rest \<Rightarrow>
          if any_char c \<and> take 2 rest = ''pt'' then Some (take (Suc k) s)
          else try_group s k)"

definition match_at :: "string \<Rightarrow> string \<Rightarrow> string option" where
  "match_at exp_id s =
     (case s of
        [] \<Rightarrow> None
      | c # r \<Rightarrow>
          (let lit = exp_id @ ''-model-''; ds = drop (length lit) r
           in if any_char c \<and> take (length lit) r = lit
              then try_group ds (length (takeWhile is_digit ds))
              else None))"

fun expr_search :: "string \<Rightarrow> string \<Rightarrow> string option" where
  "expr_search exp_id [] = None"
| "expr_search exp_id (c # r) =
     (case match_at exp_id (c # r) of
        Some g \<Rightarrow> Some g
      | None \<Rightarrow> expr_search exp_id r)"

text \<open>Python's \<open>int(s)\<close> on a string of decimal digits.\<close>

definition digit_value :: "char \<Rightarrow> nat" where
  "digit_value c = length (takeWhile (\<lambda>d. d \<noteq> c) ''0123456789'')"

definition int_of_digits :: "string \<Rightarrow> nat" where
  "int_of_digits s = foldl (\<lambda>n c. 10 * n + digit_value c) 0 s"

text \<open>
  The loop \<open>for fname in fnames\<close>, with \<open>max_model_number\<close> as its state. On a name
  that the expression does not match, \<open>expr.search(fname)\<close> is \<open>None\<close> and
  \<open>.groups()\<close> raises AttributeError.
\<close>

fun max_model_number_loop :: "string \<Rightarrow> string list \<Rightarrow> nat \<Rightarrow> py_error + nat" where
  "max_model_number_loop exp_id [] max_model_number = Inr max_model_number"
| "max_model_number_loop exp_id (fname # fnames) max_model_number =
     (case expr_search exp_id fname of
        None \<Rightarrow> Inl AttributeError
      | Some g \<Rightarrow>
          (let model_num = int_of_digits g
           in max_model_number_loop exp_id fnames
                (if model_num > max_model_number then model_num else max_model_number)))"

text \<open>The entries of \<open>flags\<close> that this part of \<open>train\<close> reads and writes.\<close>

record flags =
  model_path :: string
  exp_id :: string
  model_file :: "string option"
  train_state_file :: string

text \<open>Lines 241 to 252: the two names \<open>"latest"\<close> are replaced by the newest pair.\<close>

definition resolve_latest :: "flags \<Rightarrow> string list \<Rightarrow> py_error + flags" where
  "resolve_latest flags fs =
     (if model_file flags = Some ''latest'' \<and> train_state_file flags = ''latest''
      then
        (let fnames = glob_star (model_path flags @ exp_id flags @ ''-model-'') ''pt'' fs
         in case max_model_number_loop (exp_id flags) fnames 0 of
              Inl e \<Rightarrow> Inl e
            | Inr max_model_number \<Rightarrow>
                Inr (flags\<lparr>
                  model_file := Some (exp_id flags @ ''-model-''
                                        @ str_nat max_model_number @ ''.pt''),
                  train_state_file := exp_id flags @ ''-train-state-''
                                        @ str_nat max_model_number @ ''.pt''\<rparr>))
      else Inr flags)"

text \<open>
  Lines 236 to 277. What the rest of \<open>train\<close> starts from: the flags, the step, the
  pair of files loaded if any, and the messages passed to \<open>logger.info\<close>.
  \<open>saved_step\<close> reads the step stored in a train-state file.
\<close>

record train_start =
  start_flags :: flags
  start_step :: int
  loaded :: "(string \<times> string) option"
  logged :: "string list"

definition not_found_msg :: "string \<Rightarrow> string \<Rightarrow> string" where
  "not_found_msg m t =
     ''Specified model_file '' @ m @ '' and train_state_file '' @ t @ '' not found.''"

definition train_checkpoint ::
  "(string \<Rightarrow> int) \<Rightarrow> flags \<Rightarrow> string list \<Rightarrow> py_error + train_start" where
  "train_checkpoint saved_step flags fs =
     (case model_file flags of
        None \<Rightarrow> Inr \<lparr>start_flags = flags, start_step = 0, loaded = None, logged = []\<rparr>
      | Some _ \<Rightarrow>
          (case resolve_latest flags fs of
             Inl e \<Rightarrow> Inl e
           | Inr flags \<Rightarrow>
               (let m = model_path flags @ the (model_file flags);
                    t = model_path flags @ train_state_file flags
                in if m \<in> set fs \<and> t \<in> set fs
                   then Inr \<lparr>start_flags = flags, start_step = saved_step t,
                             loaded = Some (m, t), logged = []\<rparr>
                   else Inr \<lparr>start_flags = flags, start_step = 0, loaded = None,
                             logged = [not_found_msg m t,
                                       ''Starting training from scratch.'']\<rparr>)))"

text \<open>
  A name that \<open>glob\<close> and the regular expression read literally: without the
  wildcards of the one and the operators of the other.
\<close>

definition glob_literal :: "string \<Rightarrow> bool" where
  "glob_literal s = (\<forall>c\<in>set s. c \<notin> set ''*?['')"

definition regex_literal :: "string \<Rightarrow> bool" where
  "regex_literal s = (\<forall>c\<in>set s. c \<notin> set ''.^$*+?{}[]|()'' \<and> c \<noteq> CHR 0x5C)"

text \<open>
  A path of ASCII characters: its bytes are its characters, and the digits that
  \<open>\d\<close> matches in it are the ten ASCII digits.
\<close>

definition ascii_text :: "string \<Rightarrow> bool" where
  "ascii_text s = (\<forall>c\<in>set s. (of_char c :: nat) < 128)"

text \<open>
  The file names of the specification, \<open><experiment-id>-model-<step>.pt\<close> and
  \<open><experiment-id>-train-state-<step>.pt\<close>, the step in decimal as \<open>train\<close> writes it
  when it saves a checkpoint.
\<close>

definition model_file_name :: "string \<Rightarrow> nat \<Rightarrow> string" where
  "model_file_name experiment_id step = experiment_id @ ''-model-'' @ str_nat step @ ''.pt''"

definition train_state_file_name :: "string \<Rightarrow> nat \<Rightarrow> string" where
  "train_state_file_name experiment_id step =
     experiment_id @ ''-train-state-'' @ str_nat step @ ''.pt''"

text \<open>
  A path that, by its name, could be a model file of the experiment: it starts with
  \<open><model_path><experiment-id>-model-\<close> and ends with \<open>pt\<close>.
\<close>

definition looks_like_model_file :: "string \<Rightarrow> string \<Rightarrow> string \<Rightarrow> bool" where
  "looks_like_model_file path experiment_id f =
     (take (length (path @ experiment_id @ ''-model-'')) f = path @ experiment_id @ ''-model-''
      \<and> drop (length f - 2) f = ''pt'')"

text \<open>
  The regular expression is searched in the whole path, directory included, and it
  starts with a dot. It finds the step in the file name when the directory part is
  not empty, does not end with a newline, and the text \<open><experiment-id>-model-\<close>
  occurs in \<open><model_path><experiment-id>-model-\<close> at no place after the first
  character other than the end.
\<close>

definition found_at_end :: "string \<Rightarrow> string \<Rightarrow> bool" where
  "found_at_end path lit =
     (path \<noteq> [] \<and> last path \<noteq> CHR 0x0A
      \<and> (\<forall>i\<in>{1..<length path}. take (length lit) (drop i (path @ lit)) \<noteq> lit))"

section \<open>The network of the specification\<close>

text \<open>
  The network that the specification describes for a list of layer sizes: linear
  layer \<open>i\<close> maps size \<open>i\<close> to size \<open>i + 1\<close> of the list and is followed by the hidden
  activation, the last one by the output activation.
\<close>

definition mlp_spec :: "nat list \<Rightarrow> activation \<Rightarrow> activation \<Rightarrow> sequential" where
  "mlp_spec sizes output_activation activation =
     concat (map (\<lambda>i. [(''NN-'' @ str_nat i, Linear (sizes ! i) (sizes ! (i + 1))),
                        (''Act-'' @ str_nat i,
                         Act (if i + 2 = length sizes then output_activation
                              else activation))])
                 [0..<length sizes - 1])"

text \<open>The two modules that iteration \<open>i\<close> of the loop of \<open>build_mlp\<close> adds.\<close>

definition layer :: "nat list \<Rightarrow> activation list \<Rightarrow> nat \<Rightarrow> sequential" where
  "layer ls act i = [(''NN-'' @ str_nat i, Linear (ls ! i) (ls ! (i + 1))),
                     (''Act-'' @ str_nat i, Act (act ! i))]"

section \<open>The MLP builder: what it returns\<close>

lemma digit_char_inj: "a < 10 \<Longrightarrow> b < 10 \<Longrightarrow> digit_char a = digit_char b \<Longrightarrow> a = b"
  unfolding digit_char_def using nth_eq_iff_index_eq [of "''0123456789''" a b] by simp

lemma str_nat_nonempty: "str_nat n \<noteq> []"
  by (subst str_nat.simps) simp

lemma str_nat_inj: "str_nat m = str_nat n \<Longrightarrow> m = n"
proof (induction m arbitrary: n rule: str_nat.induct)
  case (1 m)
  show ?case
  proof (cases "m < 10")
    case small_m: True
    show ?thesis
    proof (cases "n < 10")
      case True
      with small_m "1.prems" show ?thesis
        by (simp add: str_nat.simps [of m] str_nat.simps [of n] digit_char_inj)
    next
      case False
      with small_m "1.prems" str_nat_nonempty [of "n div 10"] show ?thesis
        by (simp add: str_nat.simps [of m] str_nat.simps [of n] Cons_eq_append_conv)
    qed
  next
    case big_m: False
    show ?thesis
    proof (cases "n < 10")
      case True
      with big_m "1.prems" str_nat_nonempty [of "m div 10"] show ?thesis
        by (simp add: str_nat.simps [of m] str_nat.simps [of n] append_eq_Cons_conv)
    next
      case False
      with big_m "1.prems"
      have eq: "str_nat (m div 10) = str_nat (n div 10)"
        and d: "digit_char (m mod 10) = digit_char (n mod 10)"
        by (simp_all add: str_nat.simps [of m] str_nat.simps [of n])
      from "1.IH" [OF big_m eq] have "m div 10 = n div 10" .
      moreover from d have "m mod 10 = n mod 10"
        by (auto intro: digit_char_inj)
      ultimately show ?thesis
        by (metis div_mult_mod_eq)
    qed
  qed
qed

lemma update_fresh: "k \<notin> fst ` set al \<Longrightarrow> AList.update k v al = al @ [(k, v)]"
  by (induction al) auto

lemma keys_layers:
  "fst ` set (concat (map (layer ls act) [0..<k])) =
     (\<lambda>i. ''NN-'' @ str_nat i) ` {..<k} \<union> (\<lambda>i. ''Act-'' @ str_nat i) ` {..<k}"
  by (induction k) (auto simp: layer_def lessThan_Suc)

lemma fold_add_layer:
  "fold (add_layer ls act) [0..<k] [] = concat (map (layer ls act) [0..<k])"
proof (induction k)
  case 0
  show ?case by simp
next
  case (Suc k)
  let ?prev = "concat (map (layer ls act) [0..<k])"
  have nn: "''NN-'' @ str_nat k \<notin> fst ` set ?prev"
    by (simp only: keys_layers) (auto dest: str_nat_inj)
  have "''Act-'' @ str_nat k \<notin> fst ` set ?prev"
    by (simp only: keys_layers) (auto dest: str_nat_inj)
  then have ac: "''Act-'' @ str_nat k \<notin> fst ` set (?prev @ [(''NN-'' @ str_nat k, m)])" for m
    by (simp add: image_Un)
  have "fold (add_layer ls act) [0..<Suc k] [] =
          add_layer ls act k (fold (add_layer ls act) [0..<k] [])"
    by simp
  also have "\<dots> = add_layer ls act k ?prev"
    by (simp only: Suc.IH)
  also have "\<dots> = ?prev @ layer ls act k"
    unfolding add_layer_def add_module_def update_fresh [OF nn] update_fresh [OF ac] layer_def
    by simp
  finally show ?case
    by simp
qed

lemma setitem_last:
  "list_setitem (replicate (Suc n) a) (- 1) b = Inr (replicate n a @ [b])"
proof -
  have "replicate (Suc n) a = replicate n a @ [a]"
    by (simp add: replicate_append_same)
  then have "(replicate (Suc n) a)[n := b] = replicate n a @ [b]"
    by (simp only: list_update_length [of "replicate n a" a "[]" b, simplified])
  moreover have "nat (int (length (replicate (Suc n) a)) + - 1) = n"
    by simp
  ultimately show ?thesis
    unfolding list_setitem_def by simp
qed

lemma length_mlp_spec: "length (mlp_spec sizes b a) = 2 * (length sizes - 1)"
proof -
  have "length (concat (map f [0..<n])) = 2 * n" if "\<And>i. length (f i) = 2"
    for f :: "nat \<Rightarrow> (string \<times> nn_module) list" and n
    using that by (induction n) simp_all
  then show ?thesis
    unfolding mlp_spec_def by simp
qed

lemma concat_pairs_nth:
  "i < n \<Longrightarrow> concat (map (\<lambda>k. [f k, g k]) [0..<n]) ! (2 * i) = f i
           \<and> concat (map (\<lambda>k. [f k, g k]) [0..<n]) ! (2 * i + 1) = g i"
proof (induction n)
  case 0
  then show ?case by simp
next
  case (Suc n)
  have len: "length (concat (map (\<lambda>k. [f k, g k]) [0..<n])) = 2 * n"
    by (induction n) simp_all
  show ?case
  proof (cases "i < n")
    case True
    with Suc.IH len show ?thesis
      by (simp add: nth_append)
  next
    case False
    with Suc.prems have "i = n" by simp
    with len show ?thesis
      by (simp add: nth_append)
  qed
qed

lemma mlp_spec_nth:
  assumes "i + 1 < length sizes"
  shows "mlp_spec sizes b a ! (2 * i) = (''NN-'' @ str_nat i, Linear (sizes ! i) (sizes ! (i + 1)))"
    and "mlp_spec sizes b a ! (2 * i + 1) =
           (''Act-'' @ str_nat i, Act (if i + 2 = length sizes then b else a))"
proof -
  from assms have lt: "i < length sizes - 1" by simp
  note nth = concat_pairs_nth [OF lt,
      of "\<lambda>k. (''NN-'' @ str_nat k, Linear (sizes ! k) (sizes ! (k + 1)))"
         "\<lambda>k. (''Act-'' @ str_nat k, Act (if k + 2 = length sizes then b else a))"]
  from nth show "mlp_spec sizes b a ! (2 * i) =
      (''NN-'' @ str_nat i, Linear (sizes ! i) (sizes ! (i + 1)))"
    unfolding mlp_spec_def by (rule conjunct1)
  from nth show "mlp_spec sizes b a ! (2 * i + 1) =
      (''Act-'' @ str_nat i, Act (if i + 2 = length sizes then b else a))"
    unfolding mlp_spec_def by (rule conjunct2)
qed

lemma build_from_sizes:
  assumes "2 \<le> length sizes"
  shows "(case list_setitem (replicate (length sizes - 1) a) (- 1) b of
            Inl e \<Rightarrow> Inl e
          | Inr act \<Rightarrow> Inr (fold (add_layer sizes act) [0..<length sizes - 1] []))
         = Inr (mlp_spec sizes b a)"
proof -
  from assms obtain n where n: "length sizes - 1 = Suc n"
    by (cases "length sizes - 1") auto
  have "map (layer sizes (replicate n a @ [b])) [0..<Suc n] =
        map (\<lambda>i. [(''NN-'' @ str_nat i, Linear (sizes ! i) (sizes ! (i + 1))),
                   (''Act-'' @ str_nat i, Act (if i + 2 = length sizes then b else a))])
            [0..<Suc n]"
    using n by (intro map_cong refl) (auto simp: layer_def nth_append)
  then show ?thesis
    unfolding n setitem_last mlp_spec_def by (simp only: sum.case fold_add_layer n)
qed

lemma build_empty:
  "(case list_setitem (replicate 0 a) (- 1) b of
      Inl e \<Rightarrow> Inl e
    | Inr act \<Rightarrow> Inr (fold (add_layer sizes act) [0..<0] [])) = Inl IndexError"
  by (simp add: list_setitem_def)

lemma build_mlp_sizes:
  assumes "sizes = [input_size] @ hidden_layer_sizes
                     @ (if truthy output_size then [the output_size] else [])"
  shows "build_mlp input_size hidden_layer_sizes output_size output_activation activation =
           (case list_setitem
                   (replicate (length sizes - 1)
                      (case activation of None \<Rightarrow> ReLU | Some c \<Rightarrow> c))
                   (- 1) (case output_activation of None \<Rightarrow> Identity | Some c \<Rightarrow> c) of
              Inl e \<Rightarrow> Inl e
            | Inr act \<Rightarrow> Inr (fold (add_layer sizes act) [0..<length sizes - 1] []))"
  unfolding build_mlp_def Let_def assms
  by (cases "truthy output_size") (simp_all only: if_True if_False append_assoc append_Nil2)

text \<open>
  Claim C4, as amended. For every input size, every non-empty list of hidden layer
  sizes and every output size other than 0, \<open>build_mlp\<close> returns the network of the
  specification for the size list \<open>[input_size] @ hidden_layer_sizes @ [output_size]\<close>:
  module \<open>2 * i\<close> is the linear layer \<open>NN-i\<close> from size \<open>i\<close> to size \<open>i + 1\<close> of that
  list and module \<open>2 * i + 1\<close> its activation \<open>Act-i\<close>, the hidden activation (ReLU
  if omitted) for every layer but the last and the output activation (the identity
  if omitted) for the last.
\<close>

theorem build_mlp_layers:
  assumes "hidden_layer_sizes \<noteq> []" and "output_size \<noteq> 0"
  shows "\<exists>mlp. build_mlp input_size hidden_layer_sizes (Some output_size)
                  output_activation activation = Inr mlp
           \<and> mlp = mlp_spec ([input_size] @ hidden_layer_sizes @ [output_size])
                     (case output_activation of None \<Rightarrow> Identity | Some c \<Rightarrow> c)
                     (case activation of None \<Rightarrow> ReLU | Some c \<Rightarrow> c)
           \<and> length mlp = 2 * (length hidden_layer_sizes + 1)
           \<and> (\<forall>i\<le>length hidden_layer_sizes.
                 mlp ! (2 * i) =
                   (''NN-'' @ str_nat i,
                    Linear (([input_size] @ hidden_layer_sizes @ [output_size]) ! i)
                           (([input_size] @ hidden_layer_sizes @ [output_size]) ! (i + 1)))
               \<and> mlp ! (2 * i + 1) =
                   (''Act-'' @ str_nat i,
                    Act (if i = length hidden_layer_sizes
                         then (case output_activation of None \<Rightarrow> Identity | Some c \<Rightarrow> c)
                         else (case activation of None \<Rightarrow> ReLU | Some c \<Rightarrow> c))))"
proof -
  let ?sizes = "[input_size] @ hidden_layer_sizes @ [output_size]"
  let ?b = "case output_activation of None \<Rightarrow> Identity | Some c \<Rightarrow> c"
  let ?a = "case activation of None \<Rightarrow> ReLU | Some c \<Rightarrow> c"
  have len: "2 \<le> length ?sizes" by simp
  have "build_mlp input_size hidden_layer_sizes (Some output_size) output_activation activation
        = Inr (mlp_spec ?sizes ?b ?a)"
  proof -
    have "?sizes = [input_size] @ hidden_layer_sizes
                     @ (if truthy (Some output_size) then [the (Some output_size)] else [])"
      using assms(2) by simp
    from build_mlp_sizes [OF this, of output_activation activation] show ?thesis
      by (simp only: build_from_sizes [OF len])
  qed
  moreover have "length (mlp_spec ?sizes ?b ?a) = 2 * (length hidden_layer_sizes + 1)"
    by (simp add: length_mlp_spec)
  moreover have "mlp_spec ?sizes ?b ?a ! (2 * i) =
                   (''NN-'' @ str_nat i, Linear (?sizes ! i) (?sizes ! (i + 1)))
               \<and> mlp_spec ?sizes ?b ?a ! (2 * i + 1) =
                   (''Act-'' @ str_nat i, Act (if i = length hidden_layer_sizes then ?b else ?a))"
    if "i \<le> length hidden_layer_sizes" for i
  proof -
    from that have "i + 1 < length ?sizes" by simp
    from mlp_spec_nth [OF this, of ?b ?a] show ?thesis
      by (simp only: length_append list.size) (simp add: eq_commute)
  qed
  ultimately show ?thesis
    by blast
qed

theorem build_mlp_layers_witness:
  "[4, 5] \<noteq> ([] :: nat list) \<and> (2 :: nat) \<noteq> 0
   \<and> build_mlp 3 [4, 5] (Some 2) None None =
       Inr [(''NN-0'', Linear 3 4), (''Act-0'', Act ReLU),
            (''NN-1'', Linear 4 5), (''Act-1'', Act ReLU),
            (''NN-2'', Linear 5 2), (''Act-2'', Act Identity)]"
proof -
  have h1: "[4, 5] \<noteq> ([] :: nat list)" and h2: "(2 :: nat) \<noteq> 0"
    by simp_all
  from build_mlp_layers [OF h1 h2, of 3 None None]
  have "build_mlp 3 [4, 5] (Some 2) None None = Inr (mlp_spec ([3] @ [4, 5] @ [2]) Identity ReLU)"
    by auto
  then show ?thesis
    by (simp add: mlp_spec_def upt_rec str_nat.simps digit_char_def)
qed

text \<open>
  With the output size 0 the claim C4 fails as stated: for input size 3 and hidden
  sizes \<open>[4]\<close> the network returned is not the one for the size list \<open>[3, 4, 0]\<close>
  (it has one linear layer, not two).
\<close>

theorem build_mlp_layers_counterexample:
  "build_mlp 3 [4] (Some 0) None None \<noteq> Inr (mlp_spec ([3] @ [4] @ [0]) Identity ReLU)"
proof -
  have s: "[3, 4] = [3] @ [4] @ (if truthy (Some 0) then [the (Some 0)] else [])"
    by simp
  have "build_mlp 3 [4] (Some 0) None None = Inr (mlp_spec [3, 4] Identity ReLU)"
    using build_mlp_sizes [OF s, of None None] build_from_sizes [of "[3, 4]" ReLU Identity]
    by simp
  moreover have "length (mlp_spec [3, 4] Identity ReLU) \<noteq> length (mlp_spec ([3] @ [4] @ [0]) Identity ReLU)"
    by (simp add: length_mlp_spec)
  ultimately show ?thesis
    by auto
qed

text \<open>
  Claim C3, as amended. With an empty list of hidden layer sizes \<open>build_mlp\<close> raises
  (IndexError, at \<open>act[-1] = output_activation\<close>) when the output size is omitted or
  0; with any other output size it returns the network of one linear layer from the
  input size to the output size, followed by the output activation.
\<close>

theorem build_mlp_empty_hidden:
  "(output_size = None \<or> output_size = Some 0 \<longrightarrow>
      build_mlp input_size [] output_size output_activation activation = Inl IndexError)
   \<and> (\<forall>n. output_size = Some n \<and> n \<noteq> 0 \<longrightarrow>
         build_mlp input_size [] output_size output_activation activation =
           Inr [(''NN-0'', Linear input_size n),
                (''Act-0'', Act (case output_activation of None \<Rightarrow> Identity | Some c \<Rightarrow> c))])"
proof (intro conjI impI allI)
  assume "output_size = None \<or> output_size = Some 0"
  then have "[input_size] = [input_size] @ []
               @ (if truthy output_size then [the output_size] else [])"
    by auto
  from build_mlp_sizes [OF this, of output_activation activation]
  show "build_mlp input_size [] output_size output_activation activation = Inl IndexError"
    by (simp add: list_setitem_def)
next
  fix n
  assume "output_size = Some n \<and> n \<noteq> 0"
  then have "[input_size, n] = [input_size] @ []
               @ (if truthy output_size then [the output_size] else [])"
    by auto
  from build_mlp_sizes [OF this, of output_activation activation]
    build_from_sizes [of "[input_size, n]"]
  show "build_mlp input_size [] output_size output_activation activation =
          Inr [(''NN-0'', Linear input_size n),
               (''Act-0'', Act (case output_activation of None \<Rightarrow> Identity | Some c \<Rightarrow> c))]"
    by (simp add: mlp_spec_def str_nat.simps digit_char_def)
qed

theorem build_mlp_empty_hidden_witness:
  "build_mlp 3 [] None None None = Inl IndexError
   \<and> build_mlp 3 [] (Some 0) None None = Inl IndexError
   \<and> build_mlp 3 [] (Some 2) (Some (Module ''Tanh'')) None =
       Inr [(''NN-0'', Linear 3 2), (''Act-0'', Act (Module ''Tanh''))]"
  using build_mlp_empty_hidden [of None 3 None None]
    build_mlp_empty_hidden [of "Some 0" 3 None None]
    build_mlp_empty_hidden [of "Some 2" 3 "Some (Module ''Tanh'')" None]
  by simp

text \<open>
  The claim C3 fails as stated: with an empty hidden list, input size 3 and output
  size 2, \<open>build_mlp\<close> returns a network.
\<close>

theorem build_mlp_empty_hidden_counterexample:
  "build_mlp 3 [] (Some 2) None None =
     Inr [(''NN-0'', Linear 3 2), (''Act-0'', Act Identity)]"
proof -
  have "[3, 2] = [3] @ [] @ (if truthy (Some 2) then [the (Some 2)] else [])"
    by simp
  from build_mlp_sizes [OF this, of None None] build_from_sizes [of "[3, 2]" ReLU Identity]
  show ?thesis
    by (simp add: mlp_spec_def str_nat.simps digit_char_def)
qed

text \<open>
  Claim C10. For every input size and every non-empty list of hidden layer sizes,
  \<open>build_mlp\<close> with output size 0 and \<open>build_mlp\<close> with the output size omitted return
  the same network: the one for the size list \<open>[input_size] @ hidden_layer_sizes\<close>,
  of as many linear layers as there are hidden sizes, with no layer of size 0
  appended.
\<close>

theorem build_mlp_output_size_zero:
  assumes "hidden_layer_sizes \<noteq> []"
  shows "\<exists>mlp. build_mlp input_size hidden_layer_sizes (Some 0) output_activation activation
                  = Inr mlp
           \<and> build_mlp input_size hidden_layer_sizes None output_activation activation
                  = Inr mlp
           \<and> mlp = mlp_spec ([input_size] @ hidden_layer_sizes)
                     (case output_activation of None \<Rightarrow> Identity | Some c \<Rightarrow> c)
                     (case activation of None \<Rightarrow> ReLU | Some c \<Rightarrow> c)
           \<and> length mlp = 2 * length hidden_layer_sizes"
proof -
  let ?sizes = "[input_size] @ hidden_layer_sizes"
  from assms have len: "2 \<le> length ?sizes"
    by (cases hidden_layer_sizes) simp_all
  have "?sizes = [input_size] @ hidden_layer_sizes
                   @ (if truthy (Some 0) then [the (Some 0)] else [])"
    by simp
  from build_mlp_sizes [OF this, of output_activation activation]
  have zero: "build_mlp input_size hidden_layer_sizes (Some 0) output_activation activation
        = Inr (mlp_spec ?sizes (case output_activation of None \<Rightarrow> Identity | Some c \<Rightarrow> c)
                 (case activation of None \<Rightarrow> ReLU | Some c \<Rightarrow> c))"
    by (simp only: build_from_sizes [OF len])
  have "?sizes = [input_size] @ hidden_layer_sizes
                   @ (if truthy None then [the None] else [])"
    by simp
  from build_mlp_sizes [OF this, of output_activation activation]
  have none: "build_mlp input_size hidden_layer_sizes None output_activation activation
        = Inr (mlp_spec ?sizes (case output_activation of None \<Rightarrow> Identity | Some c \<Rightarrow> c)
                 (case activation of None \<Rightarrow> ReLU | Some c \<Rightarrow> c))"
    by (simp only: build_from_sizes [OF len])
  from zero none show ?thesis
    by (simp add: length_mlp_spec)
qed

theorem build_mlp_output_size_zero_witness:
  "[4, 5] \<noteq> ([] :: nat list)
   \<and> build_mlp 3 [4, 5] (Some 0) None None =
       Inr [(''NN-0'', Linear 3 4), (''Act-0'', Act ReLU),
            (''NN-1'', Linear 4 5), (''Act-1'', Act Identity)]
   \<and> build_mlp 3 [4, 5] None None None =
       Inr [(''NN-0'', Linear 3 4), (''Act-0'', Act ReLU),
            (''NN-1'', Linear 4 5), (''Act-1'', Act Identity)]"
proof -
  have h: "[4, 5] \<noteq> ([] :: nat list)"
    by simp
  from build_mlp_output_size_zero [OF h, of 3 None None] show ?thesis
    by (auto simp: mlp_spec_def upt_rec str_nat.simps digit_char_def)
qed

section \<open>The noise that train adds to kinematic particles\<close>

lemma sequence_sum_Inr: "sequence_sum (map Inr xs) = Inr xs"
  by (induction xs) simp_all

lemma broadcast2_same:
  assumes "length xs = length ys"
    and "\<And>x y. (x, y) \<in> set (zip xs ys) \<Longrightarrow> f x y = Inr (g x y)"
  shows "broadcast2 f xs ys = Inr (map2 g xs ys)"
proof -
  have eq: "map2 f xs ys = map Inr (map2 g xs ys)"
    using assms(2) by (auto intro!: map_cong)
  show ?thesis
    unfolding broadcast2_def eq using assms(1) by (simp only: sequence_sum_Inr) simp
qed

lemma mask_same_length:
  assumes "length particle_type = length sampled_noise"
  shows "mask_sampled_noise particle_type sampled_noise =
           Inr (map2 (\<lambda>t n. map (map (\<lambda>x. times_bool x (t \<noteq> KINEMATIC_PARTICLE_ID))) n)
                  particle_type sampled_noise)"
  using assms
  by (simp add: mask_sampled_noise_def non_kinematic_mask_def Let_def zip_map1 split_def)

lemma times_bool_False:
  "times_bool x False = (if is_finite x then Finite 0 else NaN)"
  by (cases x) (simp_all add: times_bool_def is_finite_def)

text \<open>
  Claim C5, as amended. With one particle type per particle of the noise tensor, the
  masking of \<open>train\<close> succeeds and keeps the shape. For a particle of the kinematic
  type, the noise left at a time offset and spatial dimension is exactly zero where
  the sampled noise is finite, and nan where it is infinite or nan; so it is zero
  everywhere when the sampled noise of the particle is finite, as it is for every
  noise standard deviation within the float32 range. The noise of every other
  particle is unchanged.
\<close>

theorem kinematic_noise_zero:
  assumes "length particle_type = length sampled_noise"
  shows "\<exists>noise. mask_sampled_noise particle_type sampled_noise = Inr noise
           \<and> length noise = length sampled_noise
           \<and> (\<forall>i<length particle_type.
                 map length (noise ! i) = map length (sampled_noise ! i)
               \<and> (particle_type ! i = KINEMATIC_PARTICLE_ID \<longrightarrow>
                    (\<forall>t<length (sampled_noise ! i). \<forall>d<length (sampled_noise ! i ! t).
                       noise ! i ! t ! d =
                         (if is_finite (sampled_noise ! i ! t ! d) then Finite 0 else NaN)))
               \<and> (particle_type ! i = KINEMATIC_PARTICLE_ID
                    \<and> (\<forall>row\<in>set (sampled_noise ! i). \<forall>x\<in>set row. is_finite x) \<longrightarrow>
                    (\<forall>row\<in>set (noise ! i). \<forall>x\<in>set row. x = Finite 0))
               \<and> (particle_type ! i \<noteq> KINEMATIC_PARTICLE_ID \<longrightarrow>
                    noise ! i = sampled_noise ! i))"
proof -
  let ?noise = "map2 (\<lambda>t n. map (map (\<lambda>x. times_bool x (t \<noteq> KINEMATIC_PARTICLE_ID))) n)
                  particle_type sampled_noise"
  have "map length (?noise ! i) = map length (sampled_noise ! i)
      \<and> (particle_type ! i = KINEMATIC_PARTICLE_ID \<longrightarrow>
           (\<forall>t<length (sampled_noise ! i). \<forall>d<length (sampled_noise ! i ! t).
              ?noise ! i ! t ! d =
                (if is_finite (sampled_noise ! i ! t ! d) then Finite 0 else NaN)))
      \<and> (particle_type ! i = KINEMATIC_PARTICLE_ID
           \<and> (\<forall>row\<in>set (sampled_noise ! i). \<forall>x\<in>set row. is_finite x) \<longrightarrow>
           (\<forall>row\<in>set (?noise ! i). \<forall>x\<in>set row. x = Finite 0))
      \<and> (particle_type ! i \<noteq> KINEMATIC_PARTICLE_ID \<longrightarrow> ?noise ! i = sampled_noise ! i)"
    if i: "i < length particle_type" for i
  proof -
    from i assms have n: "?noise ! i =
        map (map (\<lambda>x. times_bool x (particle_type ! i \<noteq> KINEMATIC_PARTICLE_ID)))
          (sampled_noise ! i)"
      by simp
    have "map length (?noise ! i) = map length (sampled_noise ! i)"
      unfolding n by simp
    moreover have "?noise ! i ! t ! d =
        (if is_finite (sampled_noise ! i ! t ! d) then Finite 0 else NaN)"
      if "particle_type ! i = KINEMATIC_PARTICLE_ID" and "t < length (sampled_noise ! i)"
        and "d < length (sampled_noise ! i ! t)" for t d
      unfolding n using that by (simp add: times_bool_False)
    moreover have "\<forall>row\<in>set (?noise ! i). \<forall>x\<in>set row. x = Finite 0"
      if "particle_type ! i = KINEMATIC_PARTICLE_ID"
        and "\<forall>row\<in>set (sampled_noise ! i). \<forall>x\<in>set row. is_finite x"
      unfolding n using that by (auto simp: times_bool_False)
    moreover have "?noise ! i = sampled_noise ! i"
      if "particle_type ! i \<noteq> KINEMATIC_PARTICLE_ID"
      unfolding n using that by (simp add: times_bool_def map_idI)
    ultimately show ?thesis
      by blast
  qed
  with mask_same_length [OF assms] assms show ?thesis
    by simp
qed

theorem kinematic_noise_zero_witness:
  "length [- 1, 0 :: int] =
     length [[[Finite 1, Finite 2], [Finite 3, Finite 4]], [[Finite 5, Finite 6], [PosInf, NaN]]]
   \<and> mask_sampled_noise [- 1, 0]
        [[[Finite 1, Finite 2], [Finite 3, Finite 4]], [[Finite 5, Finite 6], [PosInf, NaN]]] =
       Inr [[[Finite 0, Finite 0], [Finite 0, Finite 0]], [[Finite 5, Finite 6], [PosInf, NaN]]]"
proof -
  have h: "length [- 1, 0 :: int] =
     length [[[Finite 1, Finite 2], [Finite 3, Finite 4]], [[Finite 5, Finite 6], [PosInf, NaN]]]"
    by simp
  from kinematic_noise_zero [OF h] obtain noise where
    n: "mask_sampled_noise [- 1, 0]
          [[[Finite 1, Finite 2], [Finite 3, Finite 4]], [[Finite 5, Finite 6], [PosInf, NaN]]]
        = Inr noise"
    by blast
  then have "noise =
      [[[Finite 0, Finite 0], [Finite 0, Finite 0]], [[Finite 5, Finite 6], [PosInf, NaN]]]"
    by (simp add: mask_sampled_noise_def non_kinematic_mask_def KINEMATIC_PARTICLE_ID_def
        times_bool_def)
  with n h show ?thesis
    by simp
qed

text \<open>
  The claim C5 fails as stated: a noise standard deviation beyond the float32 range
  (it need only be > 0) makes the sampled noise infinite, and the noise left for a
  kinematic particle is then nan, not zero.
\<close>

theorem kinematic_noise_zero_counterexample:
  "mask_sampled_noise [KINEMATIC_PARTICLE_ID] [[[PosInf]]] = Inr [[[NaN]]]"
  by (simp add: mask_sampled_noise_def non_kinematic_mask_def times_bool_def)

section \<open>The training loss\<close>

lemma sq_diff_same:
  assumes "length pred_acc = length target_acc"
    and "\<And>p t. (p, t) \<in> set (zip pred_acc target_acc) \<Longrightarrow> length p = length t"
  shows "sq_diff pred_acc target_acc =
           Inr (map2 (map2 (\<lambda>x y. (x - y)\<^sup>2)) pred_acc target_acc)"
  unfolding sq_diff_def
proof (rule broadcast2_same [OF assms(1)])
  fix p t
  assume "(p, t) \<in> set (zip pred_acc target_acc)"
  then have "length p = length t"
    by (rule assms(2))
  then show "broadcast2 (\<lambda>x y. Inr ((x - y)\<^sup>2)) p t = Inr (map2 (\<lambda>x y. (x - y)\<^sup>2) p t)"
    by (rule broadcast2_same) simp
qed

lemma particle_loss_same:
  assumes "length pred_acc = length target_acc"
    and "\<And>p t. (p, t) \<in> set (zip pred_acc target_acc) \<Longrightarrow> length p = length t"
  shows "particle_loss pred_acc target_acc = Inr (map2 squared_error pred_acc target_acc)"
proof -
  have "sq_diff pred_acc target_acc =
          Inr (map2 (map2 (\<lambda>x y. (x - y)\<^sup>2)) pred_acc target_acc)"
    by (rule sq_diff_same) (fact assms)+
  then show ?thesis
    by (simp add: particle_loss_def squared_error_def split_def)
qed

lemma masked_loss_same:
  assumes "length particle_type = length loss"
  shows "masked_loss (non_kinematic_mask particle_type) loss =
           Inr (map2 (\<lambda>t l. if t \<noteq> KINEMATIC_PARTICLE_ID then l else 0) particle_type loss)"
proof -
  have "masked_loss (non_kinematic_mask particle_type) loss =
          Inr (map2 (\<lambda>b l. if b then l else 0) (non_kinematic_mask particle_type) loss)"
    unfolding masked_loss_def using assms
    by (intro broadcast2_same) (simp_all add: non_kinematic_mask_def)
  then show ?thesis
    by (simp add: non_kinematic_mask_def zip_map1 split_def)
qed

lemma count_mask:
  "length (filter id (non_kinematic_mask particle_type)) = non_kinematic_count particle_type"
  by (induction particle_type) (simp_all add: non_kinematic_mask_def non_kinematic_count_def)

lemma masked_sum:
  assumes "length particle_type = length pred_acc" and "length pred_acc = length target_acc"
  shows "sum_list (map2 (\<lambda>t l. if t \<noteq> KINEMATIC_PARTICLE_ID then l else 0) particle_type
                     (map2 squared_error pred_acc target_acc))
         = non_kinematic_error_sum pred_acc target_acc particle_type"
  using assms
  by (induction particle_type pred_acc target_acc rule: list_induct3)
     (simp_all add: non_kinematic_error_sum_def)

text \<open>
  Claim C6. For a batch of predicted and target accelerations of shape
  (nparticles, dim) and one type per particle, the loss of \<open>train\<close> is the sum over
  the non-kinematic particles of the squared acceleration error (summed over the
  spatial dimensions) divided by the number of non-kinematic particles; the term of
  a kinematic particle in the sum is exactly 0. The division is torch's: with no
  non-kinematic particle in the batch it is 0 / 0.
\<close>

theorem train_loss_non_kinematic_mean:
  assumes "length pred_acc = length particle_type"
    and "length target_acc = length particle_type"
    and "\<forall>(p, t)\<in>set (zip pred_acc target_acc). length p = length t"
  shows "\<exists>loss masked.
           particle_loss pred_acc target_acc = Inr loss
         \<and> masked_loss (non_kinematic_mask particle_type) loss = Inr masked
         \<and> length masked = length particle_type
         \<and> (\<forall>i<length particle_type.
               masked ! i = (if particle_type ! i = KINEMATIC_PARTICLE_ID then 0
                             else squared_error (pred_acc ! i) (target_acc ! i)))
         \<and> sum_list masked = non_kinematic_error_sum pred_acc target_acc particle_type
         \<and> train_loss pred_acc target_acc particle_type =
             Inr (torch_div (non_kinematic_error_sum pred_acc target_acc particle_type)
                    (non_kinematic_count particle_type))
         \<and> (non_kinematic_count particle_type \<noteq> 0 \<longrightarrow>
              train_loss pred_acc target_acc particle_type =
                Inr (Finite (non_kinematic_error_sum pred_acc target_acc particle_type
                             / real (non_kinematic_count particle_type))))"
proof -
  let ?loss = "map2 squared_error pred_acc target_acc"
  let ?masked = "map2 (\<lambda>t l. if t \<noteq> KINEMATIC_PARTICLE_ID then l else 0) particle_type ?loss"
  from assms have len: "length pred_acc = length target_acc"
    and rows: "\<And>p t. (p, t) \<in> set (zip pred_acc target_acc) \<Longrightarrow> length p = length t"
    by auto
  have pl: "particle_loss pred_acc target_acc = Inr ?loss"
    by (rule particle_loss_same [OF len rows])
  have ml: "masked_loss (non_kinematic_mask particle_type) ?loss = Inr ?masked"
    using assms(1,2) by (intro masked_loss_same) simp
  have lm: "length ?masked = length particle_type"
    using assms(1,2) by simp
  have nth: "?masked ! i = (if particle_type ! i = KINEMATIC_PARTICLE_ID then 0
                            else squared_error (pred_acc ! i) (target_acc ! i))"
    if "i < length particle_type" for i
    using that assms(1,2) by simp
  have sm: "sum_list ?masked = non_kinematic_error_sum pred_acc target_acc particle_type"
    using assms(1,2) by (intro masked_sum) simp_all
  have tl: "train_loss pred_acc target_acc particle_type =
              Inr (torch_div (non_kinematic_error_sum pred_acc target_acc particle_type)
                     (non_kinematic_count particle_type))"
    unfolding train_loss_def pl sum.case Let_def ml count_mask sm ..
  have fin: "train_loss pred_acc target_acc particle_type =
               Inr (Finite (non_kinematic_error_sum pred_acc target_acc particle_type
                            / real (non_kinematic_count particle_type)))"
    if "non_kinematic_count particle_type \<noteq> 0"
    using that tl by (simp add: torch_div_def)
  from pl ml lm nth sm tl fin show ?thesis
    by blast
qed

theorem train_loss_non_kinematic_mean_witness:
  "train_loss [[1, 2], [3, 4], [5, 7]] [[0, 0], [0, 0], [4, 5]] [- 1, 0, 0] = Inr (Finite (15 / 1))"
proof -
  have h1: "length [[1, 2], [3, 4], [5, 7 :: real]] = length [- 1, 0, 0 :: int]"
    and h2: "length [[0, 0], [0, 0], [4, 5 :: real]] = length [- 1, 0, 0 :: int]"
    and h3: "\<forall>(p, t)\<in>set (zip [[1, 2], [3, 4], [5, 7 :: real]] [[0, 0], [0, 0], [4, 5 :: real]]).
               length p = length t"
    by simp_all
  have c: "non_kinematic_count [- 1, 0, 0] \<noteq> 0"
    by (simp add: non_kinematic_count_def KINEMATIC_PARTICLE_ID_def)
  from train_loss_non_kinematic_mean [OF h1 h2 h3] c
  have "train_loss [[1, 2], [3, 4], [5, 7]] [[0, 0], [0, 0], [4, 5]] [- 1, 0, 0] =
          Inr (Finite (non_kinematic_error_sum [[1, 2], [3, 4], [5, 7]] [[0, 0], [0, 0], [4, 5]]
                         [- 1, 0, 0] / real (non_kinematic_count [- 1, 0, 0])))"
    by blast
  then show ?thesis
    by (simp add: non_kinematic_error_sum_def non_kinematic_count_def squared_error_def
        KINEMATIC_PARTICLE_ID_def)
qed

section \<open>The rollout driver\<close>

lemma tensor_shape_lengths: "tensor_shape n d t \<Longrightarrow> map length t = replicate n d"
  by (auto simp: tensor_shape_def list_all_iff intro!: replicate_eqI)

lemma set_tl_subset: "q \<in> set (tl xs) \<Longrightarrow> q \<in> set xs"
  by (cases xs) simp_all

lemma cat_window_shape:
  assumes w: "window_shape n c d w" and p: "tensor_shape n d p" and c: "1 \<le> c"
  shows "\<exists>w'. cat_window w p = Inr w' \<and> window_shape n c d w'"
proof -
  from w p have len: "length w = length p"
    by (simp add: window_shape_def tensor_shape_def)
  have ok: "list_all2 (\<lambda>w p. \<forall>q\<in>set w. length q = length p) w p"
  proof (rule list_all2_all_nthI [OF len])
    fix i
    assume i: "i < length w"
    with w have "\<forall>q\<in>set (w ! i). length q = d"
      by (auto simp: window_shape_def list_all_iff)
    moreover from i len p have "length (p ! i) = d"
      by (auto simp: tensor_shape_def list_all_iff)
    ultimately show "\<forall>q\<in>set (w ! i). length q = length (p ! i)"
      by simp
  qed
  have "length (tl ps @ [q]) = c \<and> (\<forall>x\<in>set (tl ps @ [q]). length x = d)"
    if "(ps, q) \<in> set (zip w p)" for ps q
  proof -
    from that have "ps \<in> set w" and "q \<in> set p"
      by (auto dest: set_zip_leftD set_zip_rightD)
    with w p have "length ps = c" and "\<forall>x\<in>set ps. length x = d" and "length q = d"
      by (auto simp: window_shape_def tensor_shape_def list_all_iff)
    with c show ?thesis
      by (auto dest: set_tl_subset)
  qed
  then have "window_shape n c d (map2 (\<lambda>w p. tl w @ [p]) w p)"
    using w len by (auto simp: window_shape_def list_all_iff)
  with ok show ?thesis
    by (simp add: cat_window_def)
qed

lemma rollout_loop_windows:
  assumes sim: "\<forall>w. window_shape n c d w \<longrightarrow> tensor_shape n d (predict_positions w particle_types edge_index)"
    and c: "1 \<le> c"
    and cur: "window_shape n c d cur"
  shows "(\<exists>cur'. rollout_loop predict_positions particle_types edge_index k cur preds =
            Inr (cur', preds @ map (\<lambda>w. predict_positions w particle_types edge_index)
                               (windows predict_positions particle_types edge_index k cur)))
       \<and> length (windows predict_positions particle_types edge_index k cur) = k
       \<and> (\<forall>w\<in>set (windows predict_positions particle_types edge_index k cur).
             window_shape n c d w)"
  using cur
proof (induction k arbitrary: cur preds)
  case 0
  show ?case by simp
next
  case (Suc k)
  let ?next = "predict_positions cur particle_types edge_index"
  from sim Suc.prems have "tensor_shape n d ?next"
    by blast
  from cat_window_shape [OF Suc.prems this c] obtain w' where
    w': "cat_window cur ?next = Inr w'" and s: "window_shape n c d w'"
    by blast
  from Suc.IH [OF s, of "preds @ [?next]"] Suc.prems w' show ?case
    by (simp add: Let_def)
qed

lemma take_window:
  "window_shape n INPUT_SEQUENCE_LENGTH d position \<Longrightarrow>
     map (take INPUT_SEQUENCE_LENGTH) position = position"
  by (auto simp: window_shape_def list_all_iff intro!: map_idI)

lemma torch_stack_same:
  assumes "ts \<noteq> []" and "\<forall>t\<in>set ts. tensor_shape n d t"
  shows "torch_stack ts = Inr ts"
proof -
  from assms(1) have "hd ts \<in> set ts" by simp
  with assms(2) have h: "map length (hd ts) = replicate n d"
    by (blast intro: tensor_shape_lengths)
  have "map length t = map length (hd ts)" if "t \<in> set ts" for t
  proof -
    from that assms(2) have "map length t = replicate n d"
      by (blast intro: tensor_shape_lengths)
    with h show ?thesis by simp
  qed
  then have "\<forall>t\<in>set ts. map length t = map length (hd ts)"
    by blast
  then have "(if \<forall>t\<in>set ts. map length t = map length (hd ts) then Inr ts
             else Inl RuntimeError) = (Inr ts :: py_error + real list list list)"
    by (rule if_P)
  with assms(1) show ?thesis
    unfolding torch_stack_def by (simp only: if_False)
qed

lemma sq_diff_shapes:
  assumes "tensor_shape n d a" and "tensor_shape n d b"
  shows "\<exists>loss. sq_diff a b = Inr loss"
proof -
  from assms have "length a = length b"
    by (simp add: tensor_shape_def)
  moreover have "length p = length t" if "(p, t) \<in> set (zip a b)" for p t
  proof -
    from that have "p \<in> set a" and "t \<in> set b"
      by (auto dest: set_zip_leftD set_zip_rightD)
    with assms show ?thesis
      by (auto simp: tensor_shape_def list_all_iff)
  qed
  ultimately show ?thesis
    using sq_diff_same [of a b] by blast
qed

lemma cat_window_value:
  "cat_window w p = Inr w' \<Longrightarrow> w' = map2 (\<lambda>w p. tl w @ [p]) w p"
  by (simp add: cat_window_def split: if_splits)

lemma windows_shift:
  assumes sim: "\<forall>w. window_shape n c d w \<longrightarrow> tensor_shape n d (predict_positions w particle_types edge_index)"
    and c: "1 \<le> c"
    and cur: "window_shape n c d cur"
    and k: "Suc k < m"
  shows "windows predict_positions particle_types edge_index m cur ! Suc k =
           map2 (\<lambda>w p. tl w @ [p])
             (windows predict_positions particle_types edge_index m cur ! k)
             (predict_positions (windows predict_positions particle_types edge_index m cur ! k)
                particle_types edge_index)"
  using cur k
proof (induction m arbitrary: cur k)
  case 0
  then show ?case by simp
next
  case (Suc m)
  let ?next = "predict_positions cur particle_types edge_index"
  from sim Suc.prems(1) have "tensor_shape n d ?next"
    by blast
  from cat_window_shape [OF Suc.prems(1) this c] obtain w' where
    w': "cat_window cur ?next = Inr w'" and s: "window_shape n c d w'"
    by blast
  from Suc.prems(2) obtain m' where m': "m = Suc m'"
    by (cases m) auto
  show ?case
  proof (cases k)
    case 0
    with w' m' cat_window_value [OF w'] show ?thesis
      by simp
  next
    case (Suc k')
    with Suc.prems(2) have "Suc k' < m" by simp
    from Suc.IH [OF s this] w' Suc show ?thesis
      by simp
  qed
qed

text \<open>
  Claim C2, as amended. For a position tensor with C = 6 past positions per
  particle, a simulator that returns one position per particle for such a window, a
  label of one position per particle, and a number of steps S \<ge> 1, \<open>rollout\<close> returns;
  its \<open>predicted_rollout\<close> has exactly S entries of one position per particle; entry
  \<open>k\<close> is the prediction made from the \<open>k\<close>-th window, and every window passed to the
  predictor has exactly C positions per particle (the oldest dropped, the newest
  prediction appended).
\<close>

theorem rollout_shapes:
  assumes pos: "window_shape n INPUT_SEQUENCE_LENGTH d position"
    and sim: "\<forall>w. window_shape n INPUT_SEQUENCE_LENGTH d w \<longrightarrow>
                 tensor_shape n d (predict_positions w particle_types edge_index)"
    and lab: "tensor_shape n d label"
    and steps: "1 \<le> nsteps"
  shows "\<exists>out loss.
           rollout predict_positions position label particle_types edge_index nsteps
             = Inr (out, loss)
         \<and> length (predicted_rollout out) = nat nsteps
         \<and> (\<forall>p\<in>set (predicted_rollout out). tensor_shape n d p)
         \<and> predicted_rollout out =
             map (\<lambda>w. predict_positions w particle_types edge_index)
               (windows predict_positions particle_types edge_index (nat nsteps)
                  (map (take INPUT_SEQUENCE_LENGTH) position))
         \<and> (\<forall>w\<in>set (windows predict_positions particle_types edge_index (nat nsteps)
                        (map (take INPUT_SEQUENCE_LENGTH) position)).
               window_shape n INPUT_SEQUENCE_LENGTH d w)
         \<and> windows predict_positions particle_types edge_index (nat nsteps)
               (map (take INPUT_SEQUENCE_LENGTH) position) ! 0 = position
         \<and> (\<forall>k. Suc k < nat nsteps \<longrightarrow>
               windows predict_positions particle_types edge_index (nat nsteps)
                 (map (take INPUT_SEQUENCE_LENGTH) position) ! Suc k =
               map2 (\<lambda>w p. tl w @ [p])
                 (windows predict_positions particle_types edge_index (nat nsteps)
                    (map (take INPUT_SEQUENCE_LENGTH) position) ! k)
                 (predicted_rollout out ! k))"
proof -
  let ?ws = "windows predict_positions particle_types edge_index (nat nsteps) position"
  let ?preds = "map (\<lambda>w. predict_positions w particle_types edge_index) ?ws"
  have c: "1 \<le> INPUT_SEQUENCE_LENGTH"
    by (simp add: INPUT_SEQUENCE_LENGTH_def)
  note rollout_loop_windows [where n = n and c = INPUT_SEQUENCE_LENGTH and d = d
      and predict_positions = predict_positions and particle_types = particle_types
      and edge_index = edge_index and cur = position and k = "nat nsteps" and preds = "[]",
      OF sim c pos]
  then obtain cur' where
    loop: "rollout_loop predict_positions particle_types edge_index (nat nsteps) position []
             = Inr (cur', ?preds)"
    and len: "length ?ws = nat nsteps"
    and shapes: "\<forall>w\<in>set ?ws. window_shape n INPUT_SEQUENCE_LENGTH d w"
    by auto
  from shapes sim have pshapes: "\<forall>p\<in>set ?preds. tensor_shape n d p"
    by auto
  from len steps have ne: "?preds \<noteq> []"
    by auto
  from torch_stack_same [OF ne pshapes] have stack: "torch_stack ?preds = Inr ?preds" .
  from ne pshapes have "tensor_shape n d (last ?preds)"
    using last_in_set by blast
  from sq_diff_shapes [OF this lab] obtain loss where
    loss: "sq_diff (last ?preds) label = Inr loss"
    by blast
  have "rollout predict_positions position label particle_types edge_index nsteps =
          Inr (\<lparr>out_initial_positions = transpose position, predicted_rollout = ?preds,
                ground_truth_rollout = label, out_particle_types = particle_types\<rparr>, loss)"
    by (simp add: rollout_def Let_def take_window [OF pos] loop stack loss)
  moreover from steps obtain m where m: "nat nsteps = Suc m"
    by (cases "nat nsteps") auto
  then have first: "?ws ! 0 = position"
    by simp
  moreover have "?ws ! Suc k = map2 (\<lambda>w p. tl w @ [p]) (?ws ! k) (?preds ! k)"
    if "Suc k < nat nsteps" for k
  proof -
    from that len have "k < length ?ws"
      by simp
    then have "?preds ! k = predict_positions (?ws ! k) particle_types edge_index"
      by simp
    with windows_shift [where predict_positions = predict_positions
        and particle_types = particle_types and edge_index = edge_index,
        OF sim c pos that]
    show ?thesis
      by simp
  qed
  ultimately show ?thesis
    using len pshapes shapes by (simp add: take_window [OF pos])
qed

theorem rollout_shapes_witness:
  "\<exists>out loss.
     rollout (\<lambda>w pt ei. map (\<lambda>ps. map (\<lambda>x. x + 1) (last ps)) w)
       [[[0], [1], [2], [3], [4], [5]]] [[9]] [- 1] () 2 = Inr (out, loss)
     \<and> length (predicted_rollout out) = 2
     \<and> (\<forall>p\<in>set (predicted_rollout out). tensor_shape 1 1 p)"
proof -
  let ?sim = "\<lambda>(w :: vec list list) (pt :: int list) (ei :: unit).
                map (\<lambda>ps. map (\<lambda>x. x + 1) (last ps)) w"
  have pos: "window_shape 1 INPUT_SEQUENCE_LENGTH 1 [[[0], [1], [2], [3], [4], [5]]]"
    by (simp add: window_shape_def INPUT_SEQUENCE_LENGTH_def)
  have sim: "\<forall>w. window_shape 1 INPUT_SEQUENCE_LENGTH 1 w \<longrightarrow> tensor_shape 1 1 (?sim w [- 1] ())"
  proof (intro allI impI)
    fix w :: "vec list list"
    assume w: "window_shape 1 INPUT_SEQUENCE_LENGTH 1 w"
    have "length (map (\<lambda>x. x + 1) (last ps)) = 1" if "ps \<in> set w" for ps
    proof -
      from that w have "length ps = 6" and all: "\<forall>p\<in>set ps. length p = 1"
        by (auto simp: window_shape_def list_all_iff INPUT_SEQUENCE_LENGTH_def)
      then have "ps \<noteq> []" by auto
      then have "last ps \<in> set ps" by simp
      with all show ?thesis by simp
    qed
    with w show "tensor_shape 1 1 (?sim w [- 1] ())"
      by (auto simp: tensor_shape_def window_shape_def list_all_iff)
  qed
  have lab: "tensor_shape 1 1 [[9]]"
    by (simp add: tensor_shape_def)
  have steps: "(1 :: int) \<le> 2"
    by simp
  from rollout_shapes [where predict_positions = ?sim and particle_types = "[- 1]"
      and edge_index = "()", OF pos sim lab steps]
  show ?thesis
    by auto
qed

text \<open>
  The claim C2 fails as stated for S = 0: no prediction is made, \<open>torch.stack\<close> of
  the empty list of predictions raises, and \<open>rollout\<close> returns nothing.
\<close>

theorem rollout_shapes_counterexample:
  "rollout (\<lambda>w pt ei. map (\<lambda>ps. map (\<lambda>x. x + 1) (last ps)) w)
     [[[0], [0], [0], [0], [0], [0]]] [[0]] [0] () 0 = Inl RuntimeError"
  by (simp add: rollout_def torch_stack_def)

text \<open>
  Claim C1 does not hold of the code. One particle of the kinematic type, at
  positions 0 to 5 and with the prescribed position 5, and a predictor that moves
  every particle by 1: the position entered in \<open>predicted_rollout\<close> (and appended to
  the window) is the predicted 6, not the prescribed 5.
\<close>

theorem rollout_kinematic_follows_prediction:
  "rollout (\<lambda>w pt ei. map (\<lambda>ps. map (\<lambda>x. x + 1) (last ps)) w)
     [[[0], [1], [2], [3], [4], [5]]] [[5]] [KINEMATIC_PARTICLE_ID] () 1 =
   Inr (\<lparr>out_initial_positions = [[[0]], [[1]], [[2]], [[3]], [[4]], [[5]]],
         predicted_rollout = [[[6]]],
         ground_truth_rollout = [[5]],
         out_particle_types = [KINEMATIC_PARTICLE_ID]\<rparr>, [[1]])"
proof -
  have t: "transpose [[[0], [1], [2], [3], [4], [5 :: real]]] =
             [[[0]], [[1]], [[2]], [[3]], [[4]], [[5]]]"
    by (simp add: transpose.simps)
  show ?thesis
    by (simp add: rollout_def Let_def INPUT_SEQUENCE_LENGTH_def cat_window_def
        torch_stack_def sq_diff_def broadcast2_def t del: transpose.simps)
qed

section \<open>The checkpoint that training resumes from\<close>

lemma max_model_number_loop_parsed:
  assumes "\<forall>f\<in>set fnames. expr_search e f \<noteq> None"
  shows "max_model_number_loop e fnames m =
           Inr (Max (insert m (set (List.map_filter
                  (\<lambda>f. map_option int_of_digits (expr_search e f)) fnames))))"
  using assms
proof (induction fnames arbitrary: m)
  case Nil
  show ?case by (simp add: List.map_filter_simps)
next
  case (Cons f fnames)
  from Cons.prems obtain g where g: "expr_search e f = Some g"
    by auto
  let ?rest = "set (List.map_filter (\<lambda>f. map_option int_of_digits (expr_search e f)) fnames)"
  have fin: "finite ?rest" by simp
  have "max_model_number_loop e (f # fnames) m =
          max_model_number_loop e fnames (max m (int_of_digits g))"
    by (simp add: g Let_def max_def)
  also have "\<dots> = Inr (Max (insert (max m (int_of_digits g)) ?rest))"
    using Cons.prems by (intro Cons.IH) simp
  also have "Max (insert (max m (int_of_digits g)) ?rest) =
             Max (insert m (insert (int_of_digits g) ?rest))"
  proof (cases "?rest = {}")
    case True
    then show ?thesis by (simp add: max.commute)
  next
    case False
    with fin show ?thesis
      by (simp add: max.assoc)
  qed
  finally show ?case
    by (simp add: g List.map_filter_simps)
qed

lemma max_model_number_loop_unparsed:
  assumes "f \<in> set fnames" and "expr_search e f = None"
  shows "max_model_number_loop e fnames m = Inl AttributeError"
  using assms
  by (induction fnames arbitrary: m) (auto simp: Let_def split: option.splits)

lemma resolve_latest_stray_file:
  "resolve_latest
     \<lparr>model_path = ''models/'', exp_id = ''exp'', model_file = Some ''latest'',
      train_state_file = ''latest''\<rparr>
     [''models/exp-model-10.pt'', ''models/exp-model-best.pt''] = Inl AttributeError"
  by code_simp

lemma digit_char_is_digit: "d < 10 \<Longrightarrow> is_digit (digit_char d)"
  unfolding is_digit_def digit_char_def by (rule nth_mem) simp

lemma str_nat_digits: "\<forall>c\<in>set (str_nat k). is_digit c"
proof (induction k rule: str_nat.induct)
  case (1 n)
  show ?case
  proof (cases "n < 10")
    case True
    then show ?thesis
      by (simp add: str_nat.simps [of n] digit_char_is_digit)
  next
    case False
    with "1.IH" show ?thesis
      by (simp add: str_nat.simps [of n] digit_char_is_digit)
  qed
qed

lemma digit_value_digit_char: "d < 10 \<Longrightarrow> digit_value (digit_char d) = d"
proof -
  assume "d < 10"
  then have "d \<in> {0, 1, 2, 3, 4, 5, 6, 7, 8, 9}"
    by auto
  then show ?thesis
    by (elim insertE emptyE) (simp_all add: digit_value_def digit_char_def)
qed

lemma int_of_digits_snoc:
  "int_of_digits (s @ [c]) = 10 * int_of_digits s + digit_value c"
  by (simp add: int_of_digits_def)

lemma int_of_digits_str_nat: "int_of_digits (str_nat k) = k"
proof (induction k rule: str_nat.induct)
  case (1 n)
  show ?case
  proof (cases "n < 10")
    case True
    then show ?thesis
      by (simp add: str_nat.simps [of n] int_of_digits_def digit_value_digit_char)
  next
    case False
    with "1.IH" have "int_of_digits (str_nat (n div 10)) = n div 10"
      by simp
    with False show ?thesis
      by (simp add: str_nat.simps [of n] int_of_digits_snoc digit_value_digit_char)
  qed
qed

lemma try_group_all:
  assumes "ds \<noteq> []"
  shows "try_group (ds @ ''.pt'') (length ds) = Some ds"
proof -
  from assms obtain m where m: "length ds = Suc m"
    by (cases ds) auto
  have "drop (Suc m) (ds @ ''.pt'') = ''.pt''"
    using m by simp
  moreover have "take (Suc m) (ds @ ''.pt'') = ds"
    using m by simp
  ultimately show ?thesis
    unfolding m by (simp add: any_char_def)
qed

lemma takeWhile_digits:
  assumes "\<forall>c\<in>set ds. is_digit c"
  shows "takeWhile is_digit (ds @ ''.pt'') = ds"
proof -
  have "\<not> is_digit CHR ''.''"
    by (simp add: is_digit_def)
  with assms show ?thesis
    by (simp add: takeWhile_append2)
qed

lemma match_at_name:
  assumes "any_char c" and "ds \<noteq> []" and "\<forall>c\<in>set ds. is_digit c"
  shows "match_at e (c # (e @ ''-model-'') @ ds @ ''.pt'') = Some ds"
proof -
  let ?lit = "e @ ''-model-''"
  have t: "take (length ?lit) (?lit @ ds @ ''.pt'') = ?lit"
    by simp
  have d: "drop (length ?lit) (?lit @ ds @ ''.pt'') = ds @ ''.pt''"
    by simp
  have "match_at e (c # ?lit @ ds @ ''.pt'') =
          try_group (ds @ ''.pt'') (length (takeWhile is_digit (ds @ ''.pt'')))"
    unfolding match_at_def list.case Let_def t d using assms(1) by simp
  also have "\<dots> = Some ds"
    unfolding takeWhile_digits [OF assms(3)] by (rule try_group_all [OF assms(2)])
  finally show ?thesis .
qed

lemma match_at_no_literal:
  assumes "lit = e @ ''-model-''" and "take (length lit) r \<noteq> lit"
  shows "match_at e (c # r) = None"
  using assms by (simp add: match_at_def Let_def)

lemma take_literal: "take (length lit) (path @ lit @ rest) = take (length lit) (path @ lit)"
  by simp

lemma expr_search_name:
  assumes lit: "lit = e @ ''-model-''"
    and "path \<noteq> []" and "last path \<noteq> CHR 0x0A"
    and "\<forall>i\<in>{1..<length path}. take (length lit) (drop i (path @ lit)) \<noteq> lit"
    and ds: "ds \<noteq> []" "\<forall>c\<in>set ds. is_digit c"
  shows "expr_search e (path @ lit @ ds @ ''.pt'') = Some ds"
  using assms(2-4)
proof (induction path)
  case Nil
  then show ?case by simp
next
  case (Cons c path)
  show ?case
  proof (cases "path = []")
    case True
    with Cons.prems(2) have "any_char c"
      by (simp add: any_char_def)
    from match_at_name [OF this ds, of e] have "match_at e (c # lit @ ds @ ''.pt'') = Some ds"
      unfolding lit .
    with True show ?thesis
      by simp
  next
    case False
    then have one: "1 \<in> {1..<length (c # path)}"
      by (cases path) auto
    with Cons.prems(3) have "take (length lit) (drop 1 ((c # path) @ lit)) \<noteq> lit"
      by blast
    then have "take (length lit) (path @ lit) \<noteq> lit"
      by simp
    then have "take (length lit) (path @ lit @ ds @ ''.pt'') \<noteq> lit"
      unfolding take_literal .
    from match_at_no_literal [OF lit this]
    have none: "match_at e (c # path @ lit @ ds @ ''.pt'') = None" .
    have "\<forall>i\<in>{1..<length path}. take (length lit) (drop i (path @ lit)) \<noteq> lit"
    proof
      fix i
      assume "i \<in> {1..<length path}"
      then have "Suc i \<in> {1..<length (c # path)}"
        by simp
      with Cons.prems(3) have "take (length lit) (drop (Suc i) ((c # path) @ lit)) \<noteq> lit"
        by blast
      then show "take (length lit) (drop i (path @ lit)) \<noteq> lit"
        by simp
    qed
    moreover from False Cons.prems(2) have "last path \<noteq> CHR 0x0A"
      by simp
    ultimately have "expr_search e (path @ lit @ ds @ ''.pt'') = Some ds"
      using False by (intro Cons.IH)
    with none show ?thesis
      by simp
  qed
qed

lemma glob_star_name:
  assumes "f = prefix @ str_nat k @ ''.pt''" and "f \<in> set fs"
  shows "f \<in> set (glob_star prefix ''pt'' fs)"
proof -
  let ?a = "prefix @ str_nat k @ ''.''"
  have f: "f = ?a @ ''pt''"
    using assms(1) by simp
  have "drop (length f - length ''pt'') f = ''pt''"
    unfolding f by simp
  moreover have "take (length prefix) f = prefix"
    unfolding assms(1) by simp
  moreover have "take (length f - length prefix - length ''pt'') (drop (length prefix) f)
                   = str_nat k @ ''.''"
    unfolding assms(1) by simp
  moreover have "CHR ''/'' \<notin> set (str_nat k @ ''.'')"
    using str_nat_digits [of k] by (auto simp: is_digit_def)
  moreover have "length prefix + length ''pt'' \<le> length f"
    unfolding assms(1) by simp
  ultimately show ?thesis
    unfolding glob_star_def using assms(2) by (simp del: length_Cons)
qed

lemma glob_star_looks_like:
  assumes "f \<in> set (glob_star (path @ e @ ''-model-'') ''pt'' fs)"
  shows "f \<in> set fs \<and> looks_like_model_file path e f"
  using assms by (simp add: glob_star_def looks_like_model_file_def numeral_2_eq_2)

text \<open>
  Where the model path itself holds the pattern, the expression finds the step
  there, in every path: for the directory \<open>a/exp-model-7.pt/\<close> with the checkpoints
  of steps 10 and 25, step 7 is selected.
\<close>

lemma resolve_latest_path_match:
  "resolve_latest
     \<lparr>model_path = ''a/exp-model-7.pt/'', exp_id = ''exp'', model_file = Some ''latest'',
      train_state_file = ''latest''\<rparr>
     [''a/exp-model-7.pt/exp-model-10.pt'', ''a/exp-model-7.pt/exp-model-25.pt''] =
   Inr \<lparr>model_path = ''a/exp-model-7.pt/'', exp_id = ''exp'',
        model_file = Some ''exp-model-7.pt'', train_state_file = ''exp-train-state-7.pt''\<rparr>"
  by code_simp

lemma Max_steps_in:
  fixes steps :: "nat list"
  assumes "steps \<noteq> []"
  shows "Max (insert 0 (set steps)) \<in> set steps"
proof -
  let ?n = "Max (insert 0 (set steps))"
  have "?n \<in> insert 0 (set steps)"
    by (rule Max_in) simp_all
  moreover have "0 \<in> set steps" if "?n = 0"
  proof -
    from assms obtain k where k: "k \<in> set steps"
      by (cases steps) auto
    then have "k \<le> ?n" by simp
    with that k show ?thesis by simp
  qed
  ultimately show ?thesis by auto
qed

lemma set_map_filter_iff:
  "y \<in> set (List.map_filter g xs) \<longleftrightarrow> (\<exists>x\<in>set xs. g x = Some y)"
  by (induction xs) (auto split: option.splits)

text \<open>
  Claim C8, as amended. Let \<open>model_file\<close> and \<open>train_state_file\<close> both be \<open>"latest"\<close>,
  the model path and the experiment id be read literally by \<open>glob\<close> and by the
  regular expression (no wildcard, no operator), the model path be such that the
  expression finds the step in the file name (\<open>found_at_end\<close>), and the files of
  the model directory that look like model files be exactly the files
  \<open><experiment-id>-model-<step>.pt\<close> of a list of steps. Then the two names are
  resolved to \<open><experiment-id>-model-<n>.pt\<close> and
  \<open><experiment-id>-train-state-<n>.pt\<close>, where \<open>n\<close> is the maximum of the steps, the
  step of a model file that exists, and 0 when there is no model file. The witness
  is the example of the specification: of the steps 10, 25 and 3, the pair of step
  25 is selected.
\<close>

theorem resolve_latest_max:
  assumes latest: "model_file flags = Some ''latest''" "train_state_file flags = ''latest''"
    and literal: "glob_literal (model_path flags)" "glob_literal (exp_id flags)"
      "regex_literal (exp_id flags)"
    and path: "found_at_end (model_path flags) (exp_id flags @ ''-model-'')"
    and present: "\<forall>k\<in>set steps. model_path flags @ model_file_name (exp_id flags) k \<in> set fs"
    and others: "\<forall>f\<in>set fs. looks_like_model_file (model_path flags) (exp_id flags) f \<longrightarrow>
                   (\<exists>k\<in>set steps. f = model_path flags @ model_file_name (exp_id flags) k)"
  shows "resolve_latest flags fs =
           Inr (flags\<lparr>model_file :=
                        Some (model_file_name (exp_id flags) (Max (insert 0 (set steps)))),
                      train_state_file :=
                        train_state_file_name (exp_id flags) (Max (insert 0 (set steps)))\<rparr>)
       \<and> (\<forall>k\<in>set steps. k \<le> Max (insert 0 (set steps)))
       \<and> (steps \<noteq> [] \<longrightarrow>
            Max (insert 0 (set steps)) \<in> set steps
          \<and> model_path flags @ model_file_name (exp_id flags) (Max (insert 0 (set steps)))
               \<in> set fs)
       \<and> (steps = [] \<longrightarrow> Max (insert 0 (set steps)) = 0)"
proof -
  let ?e = "exp_id flags"
  let ?lit = "?e @ ''-model-''"
  let ?fnames = "glob_star (model_path flags @ ?lit) ''pt'' fs"
  let ?g = "\<lambda>f. map_option int_of_digits (expr_search ?e f)"
  have name: "model_path flags @ model_file_name ?e k =
              model_path flags @ ?lit @ str_nat k @ ''.pt''" for k
    by (simp add: model_file_name_def)
  from path have p: "model_path flags \<noteq> []" "last (model_path flags) \<noteq> CHR 0x0A"
    "\<forall>i\<in>{1..<length (model_path flags)}.
       take (length ?lit) (drop i (model_path flags @ ?lit)) \<noteq> ?lit"
    by (simp_all add: found_at_end_def)
  have search: "expr_search ?e (model_path flags @ model_file_name ?e k) = Some (str_nat k)"
    for k
    unfolding name
    by (rule expr_search_name [OF refl p]) (simp_all add: str_nat_nonempty str_nat_digits)
  have g: "?g (model_path flags @ model_file_name ?e k) = Some k" for k
    by (simp add: search int_of_digits_str_nat)
  have globbed: "\<exists>k\<in>set steps. f = model_path flags @ model_file_name ?e k"
    if "f \<in> set ?fnames" for f
    using glob_star_looks_like [OF that] others by blast
  have parsed: "\<forall>f\<in>set ?fnames. expr_search ?e f \<noteq> None"
  proof
    fix f
    assume "f \<in> set ?fnames"
    from globbed [OF this] obtain k where "f = model_path flags @ model_file_name ?e k"
      by blast
    with search [of k] show "expr_search ?e f \<noteq> None"
      by simp
  qed
  have nums: "set (List.map_filter ?g ?fnames) = set steps"
  proof (intro equalityI subsetI)
    fix n
    assume "n \<in> set (List.map_filter ?g ?fnames)"
    then obtain f where f: "f \<in> set ?fnames" and gf: "?g f = Some n"
      unfolding set_map_filter_iff by blast
    from globbed [OF f] obtain k where k: "k \<in> set steps"
      and "f = model_path flags @ model_file_name ?e k"
      by blast
    with gf g [of k] show "n \<in> set steps"
      by simp
  next
    fix k
    assume k: "k \<in> set steps"
    with present have "model_path flags @ model_file_name ?e k \<in> set fs"
      by blast
    then have "model_path flags @ model_file_name ?e k \<in> set ?fnames"
      by (intro glob_star_name [of _ _ k]) (simp_all add: model_file_name_def)
    with g [of k] show "k \<in> set (List.map_filter ?g ?fnames)"
      unfolding set_map_filter_iff by blast
  qed
  from max_model_number_loop_parsed [OF parsed, of 0]
  have "max_model_number_loop ?e ?fnames 0 = Inr (Max (insert 0 (set steps)))"
    unfolding nums .
  then have r: "resolve_latest flags fs =
           Inr (flags\<lparr>model_file :=
                        Some (model_file_name ?e (Max (insert 0 (set steps)))),
                      train_state_file :=
                        train_state_file_name ?e (Max (insert 0 (set steps)))\<rparr>)"
    using latest
    by (simp add: resolve_latest_def Let_def model_file_name_def train_state_file_name_def)
  have upper: "\<forall>k\<in>set steps. k \<le> Max (insert 0 (set steps))"
    by simp
  have inside: "Max (insert 0 (set steps)) \<in> set steps
      \<and> model_path flags @ model_file_name ?e (Max (insert 0 (set steps))) \<in> set fs"
    if "steps \<noteq> []"
  proof -
    from that have "Max (insert 0 (set steps)) \<in> set steps"
      by (rule Max_steps_in)
    with present show ?thesis
      by blast
  qed
  have zero: "Max (insert 0 (set steps)) = 0" if "steps = []"
    using that by simp
  from inside have inside1: "steps \<noteq> [] \<Longrightarrow> Max (insert 0 (set steps)) \<in> set steps"
    and inside2: "steps \<noteq> [] \<Longrightarrow>
      model_path flags @ model_file_name ?e (Max (insert 0 (set steps))) \<in> set fs"
    by blast+
  show ?thesis
    by (intro conjI impI r upper zero inside1 inside2)
qed

theorem resolve_latest_max_witness:
  "resolve_latest
     \<lparr>model_path = ''models/'', exp_id = ''exp'', model_file = Some ''latest'',
      train_state_file = ''latest''\<rparr>
     [''models/exp-model-10.pt'', ''models/exp-model-25.pt'', ''models/exp-model-3.pt'',
      ''models/exp-train-state-25.pt'', ''models/exp-loss.png''] =
   Inr \<lparr>model_path = ''models/'', exp_id = ''exp'', model_file = Some ''exp-model-25.pt'',
        train_state_file = ''exp-train-state-25.pt''\<rparr>"
proof -
  let ?flags = "\<lparr>model_path = ''models/'', exp_id = ''exp'', model_file = Some ''latest'',
                 train_state_file = ''latest''\<rparr>"
  let ?fs = "[''models/exp-model-10.pt'', ''models/exp-model-25.pt'', ''models/exp-model-3.pt'',
              ''models/exp-train-state-25.pt'', ''models/exp-loss.png'']"
  let ?steps = "[10, 25, 3 :: nat]"
  have latest: "model_file ?flags = Some ''latest''" "train_state_file ?flags = ''latest''"
    by simp_all
  have literal: "glob_literal (model_path ?flags)" "glob_literal (exp_id ?flags)"
    "regex_literal (exp_id ?flags)"
    by (simp_all add: glob_literal_def regex_literal_def)
  have path: "found_at_end (model_path ?flags) (exp_id ?flags @ ''-model-'')"
    by code_simp
  have present: "\<forall>k\<in>set ?steps. model_path ?flags @ model_file_name (exp_id ?flags) k \<in> set ?fs"
    by code_simp
  have others: "\<forall>f\<in>set ?fs. looks_like_model_file (model_path ?flags) (exp_id ?flags) f \<longrightarrow>
                  (\<exists>k\<in>set ?steps. f = model_path ?flags @ model_file_name (exp_id ?flags) k)"
    by code_simp
  have names: "model_file_name ''exp'' 25 = ''exp-model-25.pt''"
    "train_state_file_name ''exp'' 25 = ''exp-train-state-25.pt''"
    by code_simp+
  have mx: "Max (insert 0 (set ?steps)) = 25"
    by simp
  from resolve_latest_max [OF latest literal path present others]
  have "resolve_latest ?flags ?fs =
          Inr (?flags\<lparr>model_file :=
                         Some (model_file_name (exp_id ?flags) (Max (insert 0 (set ?steps)))),
                       train_state_file :=
                         train_state_file_name (exp_id ?flags) (Max (insert 0 (set ?steps)))\<rparr>)"
    by (rule conjunct1)
  then show ?thesis
    unfolding mx by (simp add: names)
qed

text \<open>
  The claim C8 fails as stated on a model directory without checkpoints: the names
  are resolved to the pair of step 0, which is the step of no file there.
\<close>

theorem resolve_latest_max_counterexample:
  "resolve_latest
     \<lparr>model_path = ''models/'', exp_id = ''exp'', model_file = Some ''latest'',
      train_state_file = ''latest''\<rparr> [] =
   Inr \<lparr>model_path = ''models/'', exp_id = ''exp'', model_file = Some ''exp-model-0.pt'',
        train_state_file = ''exp-train-state-0.pt''\<rparr>
   \<and> ''models/exp-model-0.pt'' \<notin> set ([] :: string list)"
proof -
  have "str_nat 0 = ''0''"
    by code_simp
  then show ?thesis
    by (simp add: resolve_latest_def glob_star_def)
qed

text \<open>
  Claim C9, as amended. For a model path and an experiment id that \<open>glob\<close> and the
  regular expression read literally (no wildcard, no operator) and a directory of
  ASCII paths: if a model file is requested, the two names are resolved without
  error, and the resolved model file and train-state file do not both exist, then
  \<open>train\<close> raises no error. It logs the
  message that names the two paths and \<open>Starting training from scratch.\<close>, loads
  nothing and starts at step 0, as if no checkpoint had been requested.
\<close>

theorem train_checkpoint_from_scratch:
  assumes "model_file flags = Some name"
    and "glob_literal (model_path flags)" and "glob_literal (exp_id flags)"
    and "regex_literal (exp_id flags)"
    and "\<forall>f\<in>set fs. ascii_text f"
    and "resolve_latest flags fs = Inr resolved"
    and "\<not> (model_path resolved @ the (model_file resolved) \<in> set fs
            \<and> model_path resolved @ train_state_file resolved \<in> set fs)"
  shows "train_checkpoint saved_step flags fs =
           Inr \<lparr>start_flags = resolved, start_step = 0, loaded = None,
                logged = [not_found_msg (model_path resolved @ the (model_file resolved))
                            (model_path resolved @ train_state_file resolved),
                          ''Starting training from scratch.'']\<rparr>"
  using assms(1,6,7) by (auto simp: train_checkpoint_def Let_def)

theorem train_checkpoint_from_scratch_witness:
  "train_checkpoint (\<lambda>t. 2000)
     \<lparr>model_path = ''models/'', exp_id = ''exp'', model_file = Some ''exp-model-10.pt'',
      train_state_file = ''exp-train-state-25.pt''\<rparr>
     [''models/exp-model-10.pt'', ''models/exp-train-state-10.pt''] =
   Inr \<lparr>start_flags =
          \<lparr>model_path = ''models/'', exp_id = ''exp'', model_file = Some ''exp-model-10.pt'',
           train_state_file = ''exp-train-state-25.pt''\<rparr>,
        start_step = 0, loaded = None,
        logged = [''Specified model_file models/exp-model-10.pt and train_state_file models/exp-train-state-25.pt not found.'',
                  ''Starting training from scratch.'']\<rparr>"
proof -
  let ?flags = "\<lparr>model_path = ''models/'', exp_id = ''exp'',
                 model_file = Some ''exp-model-10.pt'',
                 train_state_file = ''exp-train-state-25.pt''\<rparr>"
  let ?fs = "[''models/exp-model-10.pt'', ''models/exp-train-state-10.pt'']"
  have h1: "model_file ?flags = Some ''exp-model-10.pt''"
    by simp
  have literal: "glob_literal (model_path ?flags)" "glob_literal (exp_id ?flags)"
    "regex_literal (exp_id ?flags)"
    by (simp_all add: glob_literal_def regex_literal_def)
  have ascii: "\<forall>f\<in>set ?fs. ascii_text f"
    by code_simp
  have h2: "resolve_latest ?flags ?fs = Inr ?flags"
    by (simp add: resolve_latest_def)
  have h3: "\<not> (model_path ?flags @ the (model_file ?flags) \<in> set ?fs
               \<and> model_path ?flags @ train_state_file ?flags \<in> set ?fs)"
    by simp
  from train_checkpoint_from_scratch [OF h1 literal ascii h2 h3, of "\<lambda>t. 2000"] show ?thesis
    by (simp add: not_found_msg_def)
qed

text \<open>
  The claim C9 fails as stated: with the model file present and its train-state
  file missing, \<open>train\<close> does not fail; it goes on from step 0.
\<close>

theorem train_checkpoint_from_scratch_counterexample:
  "train_checkpoint (\<lambda>t. 2000)
     \<lparr>model_path = ''models/'', exp_id = ''exp'', model_file = Some ''exp-model-10.pt'',
      train_state_file = ''exp-train-state-10.pt''\<rparr>
     [''models/exp-model-10.pt''] =
   Inr \<lparr>start_flags =
          \<lparr>model_path = ''models/'', exp_id = ''exp'', model_file = Some ''exp-model-10.pt'',
           train_state_file = ''exp-train-state-10.pt''\<rparr>,
        start_step = 0, loaded = None,
        logged = [''Specified model_file models/exp-model-10.pt and train_state_file models/exp-train-state-10.pt not found.'',
                  ''Starting training from scratch.'']\<rparr>"
  by (simp add: train_checkpoint_def resolve_latest_def not_found_msg_def)

end
